theory Spec2Isabelle
  imports Complex_Main
begin

section \<open>Data model (types.ts)\<close>

text \<open>
  JavaScript strings are modelled as \<open>string\<close>; a \<open>char\<close> stands for one code unit below
  256. Optional fields (\<open>field?: T\<close>, or a field that untyped data may lack) are
  \<open>option\<close> values, \<open>None\<close> being \<open>undefined\<close>. Isabelle record fields share one name
  space, so each interface's fields carry a short prefix: \<open>e_\<close> for JournalEntry,
  \<open>evt_\<close> for CalendarEvent, \<open>task_\<close> for Task, \<open>tx_\<close> for FinanceTransaction,
  \<open>msg_\<close> for ChatMessage.
\<close>

datatype JournalMode = PERSONAL | PROFESSIONAL

text \<open>
  \<open>startTime\<close> and \<open>endTime\<close> are declared \<open>string\<close> in types.ts, but events
  built from extraction candidates (typed \<open>any\<close> and copied with the spread operator) may
  lack them at run time, so they are optional here.
\<close>

record CalendarEvent =
  evt_id :: string
  evt_title :: string
  evt_startTime :: "string option"
  evt_endTime :: "string option"
  evt_description :: "string option"
  evt_linkedEntryId :: "string option"

record Task =
  task_id :: string
  task_title :: string
  task_completed :: bool
  task_dueDate :: "string option"
  task_linkedEntryId :: "string option"

datatype TxType = income | expense

record FinanceTransaction =
  tx_id :: string
  tx_amount :: real
  tx_type :: TxType
  tx_category :: "string option"
  tx_description :: string
  tx_date :: string
  tx_linkedEntryId :: "string option"

text \<open>An element of \<open>JournalEntry.media\<close>; its \<open>type\<close> field is always \<open>'image'\<close>.\<close>

record MediaItem =
  media_content :: string
  media_mimeType :: string

record JournalEntry =
  e_id :: string
  e_title :: string
  e_content :: string
  e_date :: string
  e_mode :: JournalMode
  e_tags :: "string list"
  e_calendarEvents :: "CalendarEvent list option"
  e_tasks :: "Task list option"
  e_transactions :: "FinanceTransaction list option"
  e_media :: "MediaItem list option"
  e_lastModified :: nat

datatype Role = user | model

text \<open>The attachment kinds \<open>'image'\<close> and \<open>'text'\<close>.\<close>

datatype AttachmentType = image_attachment | text_attachment

record Attachment =
  att_type :: AttachmentType
  att_content :: string
  att_mimeType :: "string option"
  att_name :: "string option"

record ChatMessage =
  msg_id :: string
  msg_role :: Role
  msg_text :: string
  msg_timestamp :: nat
  msg_attachment :: "Attachment option"

section \<open>Persistence (services/storageService.ts)\<close>

text \<open>
  One \<open>localStorage\<close> key holds nothing (\<open>Absent\<close>), text that \<open>JSON.parse\<close> rejects
  (\<open>Corrupt\<close>), or the JSON of an array of records (\<open>Stored\<close>). Every write of the
  program stores an array, so other JSON values are not modelled. \<open>JSON.stringify\<close>
  followed by \<open>JSON.parse\<close> is the identity on these records. The backup time stamp is
  kept as the number its decimal text denotes.
\<close>

datatype 'a cell = Absent | Corrupt | Stored "'a list"

record storage =
  STORAGE_KEY :: "JournalEntry cell"
  CALENDAR_KEY :: "CalendarEvent cell"
  TASKS_KEY :: "Task cell"
  FINANCE_KEY :: "FinanceTransaction cell"
  CHAT_PERSONAL_KEY :: "ChatMessage cell"
  CHAT_PROF_KEY :: "ChatMessage cell"
  BACKUP_TIMESTAMP_KEY :: "nat option"

text \<open>\<open>data ? JSON.parse(data) : []\<close> inside \<open>try\<close>, with \<open>[]\<close> in the \<open>catch\<close>.\<close>

definition read_cell :: "'a cell \<Rightarrow> 'a list" where
  "read_cell c = (case c of Absent \<Rightarrow> [] | Corrupt \<Rightarrow> [] | Stored xs \<Rightarrow> xs)"

definition getEntries :: "storage \<Rightarrow> JournalEntry list" where
  "getEntries s = read_cell (STORAGE_KEY s)"

text \<open>\<open>Array.prototype.findIndex\<close>; \<open>None\<close> is the result \<open>-1\<close>.\<close>

fun findIndex :: "('a \<Rightarrow> bool) \<Rightarrow> 'a list \<Rightarrow> nat option" where
  "findIndex p [] = None"
| "findIndex p (x # xs) =
     (if p x then Some 0
      else (case findIndex p xs of None \<Rightarrow> None | Some i \<Rightarrow> Some (Suc i)))"

definition saveEntry :: "storage \<Rightarrow> JournalEntry \<Rightarrow> storage" where
  "saveEntry s entry =
     (let entries = getEntries s;
          entries' = (case findIndex (\<lambda>e. e_id e = e_id entry) entries of
                        Some existingIndex \<Rightarrow> entries[existingIndex := entry]
                      | None \<Rightarrow> entries @ [entry])
      in s\<lparr>STORAGE_KEY := Stored entries'\<rparr>)"

definition deleteEntry :: "storage \<Rightarrow> string \<Rightarrow> storage" where
  "deleteEntry s i = s\<lparr>STORAGE_KEY := Stored (filter (\<lambda>e. e_id e \<noteq> i) (getEntries s))\<rparr>"

definition getCalendarEvents :: "storage \<Rightarrow> CalendarEvent list" where
  "getCalendarEvents s = read_cell (CALENDAR_KEY s)"

definition addCalendarEvents :: "storage \<Rightarrow> CalendarEvent list \<Rightarrow> storage" where
  "addCalendarEvents s events =
     (let current = getCalendarEvents s;
          newEvents = current @
            filter (\<lambda>e. List.find (\<lambda>c. evt_id c = evt_id e) current = None) events
      in s\<lparr>CALENDAR_KEY := Stored newEvents\<rparr>)"

definition getTasks :: "storage \<Rightarrow> Task list" where
  "getTasks s = read_cell (TASKS_KEY s)"

text \<open>The body of the \<open>forEach\<close> in \<open>saveTasks\<close>.\<close>

definition saveTasks_step :: "Task list \<Rightarrow> Task \<Rightarrow> Task list" where
  "saveTasks_step updated t =
     (case findIndex (\<lambda>existing. task_id existing = task_id t) updated of
        Some idx \<Rightarrow> updated[idx := t]
      | None \<Rightarrow> updated @ [t])"

definition saveTasks :: "storage \<Rightarrow> Task list \<Rightarrow> storage" where
  "saveTasks s tasks = s\<lparr>TASKS_KEY := Stored (foldl saveTasks_step (getTasks s) tasks)\<rparr>"

definition updateTaskStatus :: "storage \<Rightarrow> string \<Rightarrow> bool \<Rightarrow> storage" where
  "updateTaskStatus s i completed =
     s\<lparr>TASKS_KEY := Stored (map (\<lambda>t. if task_id t = i then t\<lparr>task_completed := completed\<rparr> else t)
                               (getTasks s))\<rparr>"

definition deleteTask :: "storage \<Rightarrow> string \<Rightarrow> storage" where
  "deleteTask s i = s\<lparr>TASKS_KEY := Stored (filter (\<lambda>t. task_id t \<noteq> i) (getTasks s))\<rparr>"

definition getTransactions :: "storage \<Rightarrow> FinanceTransaction list" where
  "getTransactions s = read_cell (FINANCE_KEY s)"

definition addTransactions :: "storage \<Rightarrow> FinanceTransaction list \<Rightarrow> storage" where
  "addTransactions s txs = s\<lparr>FINANCE_KEY := Stored (getTransactions s @ txs)\<rparr>"

definition getChatHistory :: "storage \<Rightarrow> JournalMode \<Rightarrow> ChatMessage list" where
  "getChatHistory s mode =
     read_cell (if mode = PERSONAL then CHAT_PERSONAL_KEY s else CHAT_PROF_KEY s)"

definition saveChatHistory :: "storage \<Rightarrow> JournalMode \<Rightarrow> ChatMessage list \<Rightarrow> storage" where
  "saveChatHistory s mode messages =
     (if mode = PERSONAL then s\<lparr>CHAT_PERSONAL_KEY := Stored messages\<rparr>
      else s\<lparr>CHAT_PROF_KEY := Stored messages\<rparr>)"

definition getLastBackupTime :: "storage \<Rightarrow> nat" where
  "getLastBackupTime s = (case BACKUP_TIMESTAMP_KEY s of None \<Rightarrow> 0 | Some n \<Rightarrow> n)"

definition updateLastBackupTime :: "storage \<Rightarrow> nat \<Rightarrow> storage" where
  "updateLastBackupTime s now = s\<lparr>BACKUP_TIMESTAMP_KEY := Some now\<rparr>"

text \<open>
  The object \<open>getAllData\<close> returns. \<open>restoreData\<close> takes untyped data, so each field
  is optional: \<open>None\<close> stands for a field that is missing or not an array.
\<close>

record BackupData =
  b_entries :: "JournalEntry list option"
  b_calendar :: "CalendarEvent list option"
  b_tasks :: "Task list option"
  b_finance :: "FinanceTransaction list option"
  b_chatPersonal :: "ChatMessage list option"
  b_chatProf :: "ChatMessage list option"
  b_lastBackup :: "nat option"
  b_timestamp :: "nat option"

definition getAllData :: "storage \<Rightarrow> nat \<Rightarrow> BackupData" where
  "getAllData s now =
     \<lparr>b_entries = Some (getEntries s),
      b_calendar = Some (getCalendarEvents s),
      b_tasks = Some (getTasks s),
      b_finance = Some (getTransactions s),
      b_chatPersonal = Some (getChatHistory s PERSONAL),
      b_chatProf = Some (getChatHistory s PROFESSIONAL),
      b_lastBackup = Some (getLastBackupTime s),
      b_timestamp = Some now\<rparr>"

definition restoreData :: "storage \<Rightarrow> BackupData \<Rightarrow> storage" where
  "restoreData s d =
     (let s1 = (case b_entries d of Some xs \<Rightarrow> s\<lparr>STORAGE_KEY := Stored xs\<rparr> | None \<Rightarrow> s);
          s2 = (case b_calendar d of Some xs \<Rightarrow> s1\<lparr>CALENDAR_KEY := Stored xs\<rparr> | None \<Rightarrow> s1);
          s3 = (case b_tasks d of Some xs \<Rightarrow> s2\<lparr>TASKS_KEY := Stored xs\<rparr> | None \<Rightarrow> s2);
          s4 = (case b_finance d of Some xs \<Rightarrow> s3\<lparr>FINANCE_KEY := Stored xs\<rparr> | None \<Rightarrow> s3);
          s5 = (case b_chatPersonal d of
                  Some xs \<Rightarrow> s4\<lparr>CHAT_PERSONAL_KEY := Stored xs\<rparr> | None \<Rightarrow> s4);
          s6 = (case b_chatProf d of Some xs \<Rightarrow> s5\<lparr>CHAT_PROF_KEY := Stored xs\<rparr> | None \<Rightarrow> s5)
      in (case b_lastBackup d of
            Some n \<Rightarrow> (if n \<noteq> 0 then s6\<lparr>BACKUP_TIMESTAMP_KEY := Some n\<rparr> else s6)
          | None \<Rightarrow> s6))"

section \<open>String operations of the JavaScript library\<close>

text \<open>\<open>String.prototype.includes\<close>, here \<open>str_includes\<close>.\<close>

fun starts_with :: "string \<Rightarrow> string \<Rightarrow> bool" where
  "starts_with s [] = True"
| "starts_with [] (p # ps) = False"
| "starts_with (c # cs) (p # ps) = (c = p \<and> starts_with cs ps)"

fun str_includes :: "string \<Rightarrow> string \<Rightarrow> bool" where
  "str_includes [] sub = (sub = [])"
| "str_includes (c # cs) sub = (starts_with (c # cs) sub \<or> str_includes cs sub)"

text \<open>
  \<open>Number.prototype.toString\<close> on a non-negative integer, as in
  \<open>Date.now().toString()\<close> and in the template literals that print an index.
\<close>

definition digit_char :: "nat \<Rightarrow> char" where
  "digit_char d = ''0123456789'' ! (d mod 10)"

fun string_of_nat :: "nat \<Rightarrow> string" where
  "string_of_nat n =
     (if n < 10 then [digit_char n] else string_of_nat (n div 10) @ [digit_char (n mod 10)])"

declare string_of_nat.simps [simp del]

text \<open>
  \<open>String.prototype.trim\<close>: the white space and line terminator code units below 256.
\<close>

definition is_white_space :: "char \<Rightarrow> bool" where
  "is_white_space c =
     (c \<in> set [CHR 0x09, CHR 0x0A, CHR 0x0B, CHR 0x0C, CHR 0x0D, CHR 0x20, CHR 0xA0])"

definition trim :: "string \<Rightarrow> string" where
  "trim s = rev (dropWhile is_white_space (rev (dropWhile is_white_space s)))"

text \<open>
  \<open>text.replace(/\[Attachment:.*?\]/gi, '')\<close>. The pattern is the literal
  \<open>[Attachment:\<close> in either letter case, then the shortest run of code units other
  than line terminators, then \<open>]\<close>. \<open>match_ci\<close> returns what follows the literal
  part; \<open>lazy_until_close\<close> the number of code units up to and including the first
  \<open>]\<close>.
\<close>

definition attachment_tag :: "(char \<times> char) list" where
  "attachment_tag = zip ''[attachment:'' ''[ATTACHMENT:''"

definition is_line_terminator :: "char \<Rightarrow> bool" where
  "is_line_terminator c = (c = CHR 0x0A \<or> c = CHR 0x0D)"

fun match_ci :: "(char \<times> char) list \<Rightarrow> string \<Rightarrow> string option" where
  "match_ci [] s = Some s"
| "match_ci (p # ps) [] = None"
| "match_ci (p # ps) (c # cs) = (if c = fst p \<or> c = snd p then match_ci ps cs else None)"

fun lazy_until_close :: "string \<Rightarrow> nat option" where
  "lazy_until_close [] = None"
| "lazy_until_close (c # cs) =
     (if c = CHR '']'' then Some 1
      else if is_line_terminator c then None
      else (case lazy_until_close cs of None \<Rightarrow> None | Some n \<Rightarrow> Some (Suc n)))"

text \<open>The length of the match that starts at the head of the string, if there is one.\<close>

definition attachment_match :: "string \<Rightarrow> nat option" where
  "attachment_match s =
     (case match_ci attachment_tag s of
        None \<Rightarrow> None
      | Some rest \<Rightarrow> (case lazy_until_close rest of
                        None \<Rightarrow> None
                      | Some n \<Rightarrow> Some (length attachment_tag + n)))"

text \<open>
  The global replacement scans from the left; \<open>skip\<close> counts the code units of the current
  match that are still to be dropped.
\<close>

fun strip_from :: "nat \<Rightarrow> string \<Rightarrow> string" where
  "strip_from skip [] = []"
| "strip_from (Suc k) (c # cs) = strip_from k cs"
| "strip_from 0 (c # cs) =
     (case attachment_match (c # cs) of
        Some n \<Rightarrow> strip_from (n - 1) cs
      | None \<Rightarrow> c # strip_from 0 cs)"

definition strip_attachments :: "string \<Rightarrow> string" where
  "strip_attachments s = strip_from 0 s"

text \<open>\<open>Array.prototype.join('\n')\<close> and the first element of \<open>split('\n')\<close>.\<close>

fun join_lines :: "string list \<Rightarrow> string" where
  "join_lines [] = []"
| "join_lines [l] = l"
| "join_lines (l # ls) = l @ CHR 0x0A # join_lines ls"

definition first_line :: "string \<Rightarrow> string" where
  "first_line s = takeWhile (\<lambda>c. c \<noteq> CHR 0x0A) s"

section \<open>Extraction client (services/geminiService.ts)\<close>

text \<open>
  An error thrown by the model service: its \<open>status\<close> and \<open>message\<close> properties.
\<close>

record ApiError =
  err_status :: "nat option"
  err_message :: "string option"

text \<open>\<open>error.message?.includes(sub)\<close>.\<close>

definition message_includes :: "ApiError \<Rightarrow> string \<Rightarrow> bool" where
  "message_includes e sub = (case err_message e of None \<Rightarrow> False | Some m \<Rightarrow> str_includes m sub)"

definition isRateLimit :: "ApiError \<Rightarrow> bool" where
  "isRateLimit e =
     (err_status e = Some 429 \<or> message_includes e ''429'' \<or> message_includes e ''quota'')"

definition isServerIssue :: "ApiError \<Rightarrow> bool" where
  "isServerIssue e =
     (err_status e = Some 503 \<or> err_status e = Some 500 \<or> message_includes e ''503''
      \<or> message_includes e ''500'' \<or> message_includes e ''Internal error'')"

definition isNotFound :: "ApiError \<Rightarrow> bool" where
  "isNotFound e =
     (err_status e = Some 404 \<or> message_includes e ''404'' \<or> message_includes e ''not found'')"

text \<open>What a call can throw.\<close>

datatype exn = ApiFailure ApiError | MaxRetriesExceeded | JsonSyntaxError | TypeError | RangeError

text \<open>One invocation of the wrapped operation: it resolves or it rejects.\<close>

datatype 'a outcome = Resolves 'a | Rejects ApiError

text \<open>
  The result of \<open>runWithRetry\<close> with its trace: how often the operation was invoked and
  the waiting times passed to \<open>delay\<close>, in milliseconds, in order.
\<close>

record 'a RetryRun =
  rr_result :: "exn + 'a"
  rr_attempts :: nat
  rr_delays :: "nat list"

text \<open>
  The \<open>for\<close> loop of \<open>runWithRetry\<close>. The operation is an external call, given by the
  outcome of its invocation in iteration \<open>i\<close>.
\<close>

function runWithRetry_loop ::
  "(nat \<Rightarrow> 'a outcome) \<Rightarrow> nat \<Rightarrow> nat \<Rightarrow> nat list \<Rightarrow> 'a RetryRun" where
  "runWithRetry_loop operation retries i delays =
     (if i < retries then
        (case operation i of
           Resolves v \<Rightarrow> \<lparr>rr_result = Inr v, rr_attempts = i + 1, rr_delays = delays\<rparr>
         | Rejects error \<Rightarrow>
             if isNotFound error then
               \<lparr>rr_result = Inl (ApiFailure error), rr_attempts = i + 1, rr_delays = delays\<rparr>
             else if (isRateLimit error \<or> isServerIssue error) \<and> i < retries - 1 then
               (let waitTime = (if isRateLimit error then 3000 else 2000) * 2 ^ i
                in runWithRetry_loop operation retries (i + 1) (delays @ [waitTime]))
             else
               \<lparr>rr_result = Inl (ApiFailure error), rr_attempts = i + 1, rr_delays = delays\<rparr>)
      else \<lparr>rr_result = Inl MaxRetriesExceeded, rr_attempts = i, rr_delays = delays\<rparr>)"
  by pat_completeness auto
termination
  by (relation "measure (\<lambda>(operation, retries, i, delays). retries - i)") auto

declare runWithRetry_loop.simps [simp del]

definition runWithRetry :: "(nat \<Rightarrow> 'a outcome) \<Rightarrow> nat \<Rightarrow> 'a RetryRun" where
  "runWithRetry operation retries = runWithRetry_loop operation retries 0 []"

text \<open>The default value of the parameter \<open>retries\<close>.\<close>

definition default_retries :: nat where
  "default_retries = 3"

text \<open>
  The extraction result, as the response schema describes it; every property may be
  missing from what the model returns.
\<close>

record EventCandidate =
  ec_title :: string
  ec_startTime :: "string option"
  ec_endTime :: "string option"
  ec_description :: "string option"

record TaskCandidate =
  tc_title :: string
  tc_dueDate :: "string option"

record TxCandidate =
  xc_description :: string
  xc_amount :: real
  xc_type :: TxType
  xc_category :: "string option"
  xc_date :: "string option"

record GeneratedData =
  g_hasContent :: "bool option"
  g_title :: "string option"
  g_content :: "string option"
  g_tags :: "string list option"
  g_calendarEvents :: "EventCandidate list option"
  g_tasks :: "TaskCandidate list option"
  g_transactions :: "TxCandidate list option"

text \<open>The object \<open>{}\<close>.\<close>

definition empty_object :: GeneratedData where
  "empty_object =
     \<lparr>g_hasContent = None, g_title = None, g_content = None, g_tags = None,
      g_calendarEvents = None, g_tasks = None, g_transactions = None\<rparr>"

text \<open>
  What \<open>JSON.parse\<close> makes of a response: \<open>null\<close>, on which reading a property
  throws, or an object. Other JSON values have none of the properties read and behave
  as \<open>{}\<close>. A response is given by what parsing its text yields, after the code fence
  markers are removed and with \<open>{}\<close> for an empty text: a syntax error or a value.
\<close>

datatype json_value = JNull | JObject GeneratedData

datatype response = Unparsable | Parses json_value

definition MODEL_NAME :: string where
  "MODEL_NAME = ''gemini-3-pro-preview''"

definition FALLBACK_MODEL :: string where
  "FALLBACK_MODEL = ''gemini-flash-lite-latest''"

text \<open>
  What reaches the model service with one call: the model name and the parts of the
  prompt that vary, namely the two date lines and the two transcripts.
\<close>

record ExtractionRequest =
  rq_model :: string
  rq_weekday :: string
  rq_date :: string
  rq_priorContext :: string
  rq_newInput :: string

text \<open>
  The model service: the outcome of \<open>ai.models.generateContent\<close> for a request in
  attempt \<open>i\<close> of one \<open>runWithRetry\<close>.
\<close>

type_synonym service = "ExtractionRequest \<Rightarrow> nat \<Rightarrow> response outcome"

text \<open>
  What a consolidation pass takes from its environment: the API key (what \<open>getApiKey\<close>
  returns), the model service and the clock. The clock is read once per pass:
  \<open>Date.now()\<close>, \<open>toISOString()\<close>, \<open>toLocaleTimeString()\<close>, and the weekday and
  date that \<open>toLocaleDateString\<close> prints into the prompt.
\<close>

record SyncEnv =
  env_apiKey :: "string option"
  env_service :: service
  env_now :: nat
  env_isoNow :: string
  env_localeTime :: string
  env_weekday :: string
  env_localeDate :: string

text \<open>\<open>m.role.toUpperCase()\<close> and the transcript lines \<open>ROLE: text\<close>, joined by line breaks.\<close>

definition role_upper :: "Role \<Rightarrow> string" where
  "role_upper r = (case r of user \<Rightarrow> ''USER'' | model \<Rightarrow> ''MODEL'')"

definition transcript :: "ChatMessage list \<Rightarrow> string" where
  "transcript ms = join_lines (map (\<lambda>m. role_upper (msg_role m) @ '': '' @ msg_text m) ms)"

text \<open>\<open>xs.slice(-10)\<close>.\<close>

definition last_ten :: "'a list \<Rightarrow> 'a list" where
  "last_ten xs = drop (length xs - 10) xs"

definition extraction_request ::
  "SyncEnv \<Rightarrow> string \<Rightarrow> ChatMessage list \<Rightarrow> ChatMessage list \<Rightarrow> ExtractionRequest" where
  "extraction_request env m newMessages contextMessages =
     \<lparr>rq_model = m, rq_weekday = env_weekday env, rq_date = env_localeDate env,
      rq_priorContext = transcript (last_ten contextMessages),
      rq_newInput = transcript newMessages\<rparr>"

text \<open>The inner function \<open>generate\<close>.\<close>

definition generate :: "service \<Rightarrow> ExtractionRequest \<Rightarrow> exn + response" where
  "generate svc rq = rr_result (runWithRetry (svc rq) default_retries)"

text \<open>The body of each \<open>try\<close> block: generate, then parse.\<close>

definition generate_and_parse :: "service \<Rightarrow> ExtractionRequest \<Rightarrow> exn + json_value" where
  "generate_and_parse svc rq =
     (case generate svc rq of
        Inl e \<Rightarrow> Inl e
      | Inr Unparsable \<Rightarrow> Inl JsonSyntaxError
      | Inr (Parses v) \<Rightarrow> Inr v)"

text \<open>\<open>generateEntryFromChat\<close>. The result is a sum so that a throw would be a value.\<close>

definition generateEntryFromChat ::
  "SyncEnv \<Rightarrow> ChatMessage list \<Rightarrow> ChatMessage list \<Rightarrow> exn + json_value" where
  "generateEntryFromChat env newMessages contextMessages =
     (if env_apiKey env = None \<or> env_apiKey env = Some [] then Inr (JObject empty_object)
      else (case generate_and_parse (env_service env)
                   (extraction_request env MODEL_NAME newMessages contextMessages) of
              Inr v \<Rightarrow> Inr v
            | Inl error \<Rightarrow>
                (case generate_and_parse (env_service env)
                        (extraction_request env FALLBACK_MODEL newMessages contextMessages) of
                   Inr v \<Rightarrow> Inr v
                 | Inl e \<Rightarrow> Inr (JObject empty_object))))"

section \<open>Consolidation pass (App.tsx)\<close>

text \<open>
  The state \<open>handleAutoSync\<close> reads and writes: the conversation stream, the cursor
  \<open>personalProcessedCountRef.current\<close>, the flag \<open>isAutoSaving\<close> and the storage.
  \<open>loadData\<close> only copies the storage into view state and is left out.
\<close>

record AppState =
  personalMessages :: "ChatMessage list"
  personalProcessedCount :: nat
  isAutoSaving :: bool
  store :: storage

text \<open>The component's first effect: load the chat and put the cursor at its end.\<close>

definition mount :: "storage \<Rightarrow> AppState" where
  "mount s =
     (let personalChat = getChatHistory s PERSONAL
      in \<lparr>personalMessages = personalChat,
          personalProcessedCount = length personalChat,
          isAutoSaving = False,
          store = s\<rparr>)"

definition updateCurrentChatMessages :: "AppState \<Rightarrow> ChatMessage list \<Rightarrow> AppState" where
  "updateCurrentChatMessages st msgs =
     st\<lparr>personalMessages := msgs, store := saveChatHistory (store st) PERSONAL msgs\<rparr>"

text \<open>\<open>a || b\<close> on an optional string: the empty string is falsy too.\<close>

definition or_else :: "string option \<Rightarrow> string \<Rightarrow> string" where
  "or_else a b = (case a of None \<Rightarrow> b | Some x \<Rightarrow> if x = [] then b else x)"

text \<open>\<open>!x || x.trim() === ""\<close>.\<close>

definition is_blank :: "string option \<Rightarrow> bool" where
  "is_blank x = (case x of None \<Rightarrow> True | Some t \<Rightarrow> t = [] \<or> trim t = [])"

text \<open>
  The two slices taken at the cursor: \<open>messages.slice(0, n)\<close> and \<open>messages.slice(n)\<close>.
\<close>

definition context_slice :: "AppState \<Rightarrow> ChatMessage list" where
  "context_slice st = take (personalProcessedCount st) (personalMessages st)"

definition newInput_slice :: "AppState \<Rightarrow> ChatMessage list" where
  "newInput_slice st = drop (personalProcessedCount st) (personalMessages st)"

definition collectMedia :: "ChatMessage list \<Rightarrow> MediaItem list" where
  "collectMedia newInput =
     concat (map (\<lambda>msg. case msg_attachment msg of
                          None \<Rightarrow> []
                        | Some a \<Rightarrow>
                            if att_type a = image_attachment
                            then [\<lparr>media_content = att_content a,
                                   media_mimeType = or_else (att_mimeType a) ''image/jpeg''\<rparr>]
                            else [])
                 newInput)"

definition rawUserText :: "ChatMessage list \<Rightarrow> string" where
  "rawUserText newInput =
     join_lines (filter (\<lambda>t. length t > 0)
       (map (\<lambda>m. trim (strip_attachments (msg_text m)))
         (filter (\<lambda>m. msg_role m = user) newInput)))"

definition shouldCreateEntry :: "GeneratedData \<Rightarrow> MediaItem list \<Rightarrow> bool" where
  "shouldCreateEntry generatedData collectedMedia =
     (g_hasContent generatedData = Some True \<or> length collectedMedia > 0)"

text \<open>\<open>shouldCreateEntry ? entryId : undefined\<close>.\<close>

definition link_of :: "bool \<Rightarrow> string \<Rightarrow> string option" where
  "link_of should entryId = (if should then Some entryId else None)"

text \<open>\<open>xs?.length > 0\<close> guards each \<open>map\<close>; a missing array gives no records.\<close>

definition candidates :: "'a list option \<Rightarrow> 'a list" where
  "candidates xs = (case xs of None \<Rightarrow> [] | Some ys \<Rightarrow> if length ys > 0 then ys else [])"

definition newEvents_of :: "GeneratedData \<Rightarrow> string \<Rightarrow> bool \<Rightarrow> CalendarEvent list" where
  "newEvents_of generatedData entryId should =
     map (\<lambda>(i, evt).
            \<lparr>evt_id = entryId @ ''-evt-'' @ string_of_nat i,
             evt_title = ec_title evt,
             evt_startTime = ec_startTime evt,
             evt_endTime = ec_endTime evt,
             evt_description = ec_description evt,
             evt_linkedEntryId = link_of should entryId\<rparr>)
         (enumerate 0 (candidates (g_calendarEvents generatedData)))"

definition newTasks_of :: "SyncEnv \<Rightarrow> GeneratedData \<Rightarrow> string \<Rightarrow> bool \<Rightarrow> Task list" where
  "newTasks_of env generatedData entryId should =
     map (\<lambda>(i, t).
            \<lparr>task_id = entryId @ ''-task-'' @ string_of_nat i,
             task_title = tc_title t,
             task_completed = False,
             task_dueDate = Some (or_else (tc_dueDate t) (env_isoNow env)),
             task_linkedEntryId = link_of should entryId\<rparr>)
         (enumerate 0 (candidates (g_tasks generatedData)))"

definition newTxs_of ::
  "SyncEnv \<Rightarrow> GeneratedData \<Rightarrow> string \<Rightarrow> bool \<Rightarrow> FinanceTransaction list" where
  "newTxs_of env generatedData entryId should =
     map (\<lambda>(i, tx).
            \<lparr>tx_id = entryId @ ''-tx-'' @ string_of_nat i,
             tx_amount = xc_amount tx,
             tx_type = xc_type tx,
             tx_category = xc_category tx,
             tx_description = xc_description tx,
             tx_date = or_else (xc_date tx) (env_isoNow env),
             tx_linkedEntryId = link_of should entryId\<rparr>)
         (enumerate 0 (candidates (g_transactions generatedData)))"

definition finalTitle_of :: "SyncEnv \<Rightarrow> GeneratedData \<Rightarrow> string \<Rightarrow> MediaItem list \<Rightarrow> string" where
  "finalTitle_of env generatedData rawText collectedMedia =
     (if is_blank (g_title generatedData) then
        (if rawText \<noteq> [] then
           (let firstLine = first_line rawText
            in if length firstLine > 50 then take 50 firstLine @ ''...'' else firstLine)
         else if length collectedMedia > 0 then ''Photo Memory''
         else ''Log: '' @ env_localeTime env)
      else or_else (g_title generatedData) [])"

definition finalContent_of :: "GeneratedData \<Rightarrow> string \<Rightarrow> string option" where
  "finalContent_of generatedData rawText =
     (if is_blank (g_content generatedData) \<and> rawText \<noteq> [] then Some rawText
      else g_content generatedData)"

text \<open>
  The entry handed to \<open>saveEntry\<close>, or \<open>None\<close> when the pass does not reach that
  call.
\<close>

definition newEntry_of ::
  "SyncEnv \<Rightarrow> GeneratedData \<Rightarrow> ChatMessage list \<Rightarrow> JournalEntry option" where
  "newEntry_of env generatedData newInput =
     (let collectedMedia = collectMedia newInput;
          entryId = string_of_nat (env_now env);
          rawText = rawUserText newInput;
          should = shouldCreateEntry generatedData collectedMedia
      in if should then
           (let finalTitle = finalTitle_of env generatedData rawText collectedMedia;
                finalContent = finalContent_of generatedData rawText
            in if or_else finalContent [] \<noteq> [] \<or> length collectedMedia > 0 then
                 Some \<lparr>e_id = entryId,
                       e_title = finalTitle,
                       e_content = or_else finalContent [],
                       e_date = env_isoNow env,
                       e_mode = PERSONAL,
                       e_tags = (case g_tags generatedData of None \<Rightarrow> [] | Some ts \<Rightarrow> ts),
                       e_calendarEvents = Some (newEvents_of generatedData entryId should),
                       e_tasks = Some (newTasks_of env generatedData entryId should),
                       e_transactions = Some (newTxs_of env generatedData entryId should),
                       e_media = Some collectedMedia,
                       e_lastModified = env_now env\<rparr>
               else None)
         else None)"

text \<open>The writes of one pass, in the order of the source: events, tasks, transactions, entry.\<close>

definition persist_pass ::
  "SyncEnv \<Rightarrow> GeneratedData \<Rightarrow> ChatMessage list \<Rightarrow> storage \<Rightarrow> storage" where
  "persist_pass env generatedData newInput s =
     (let entryId = string_of_nat (env_now env);
          should = shouldCreateEntry generatedData (collectMedia newInput);
          newEvents = newEvents_of generatedData entryId should;
          s1 = (if newEvents \<noteq> [] then addCalendarEvents s newEvents else s);
          newTasks = newTasks_of env generatedData entryId should;
          s2 = (if newTasks \<noteq> [] then saveTasks s1 newTasks else s1);
          newTxs = newTxs_of env generatedData entryId should;
          s3 = (if newTxs \<noteq> [] then addTransactions s2 newTxs else s2)
      in case newEntry_of env generatedData newInput of
           None \<Rightarrow> s3
         | Some newEntry \<Rightarrow> saveEntry s3 newEntry)"

text \<open>
  The \<open>try\<close> block: the exception it ends with, if any, and the state it leaves. The
  cursor moves before the extraction call; reading \<open>hasContent\<close> of \<open>null\<close> throws.
\<close>

definition handleAutoSync_try :: "SyncEnv \<Rightarrow> AppState \<Rightarrow> exn option \<times> AppState" where
  "handleAutoSync_try env st =
     (let messages = personalMessages st;
          context = context_slice st;
          newInput = newInput_slice st;
          st1 = st\<lparr>personalProcessedCount := length messages\<rparr>
      in case generateEntryFromChat env newInput context of
           Inl e \<Rightarrow> (Some e, st1)
         | Inr JNull \<Rightarrow> (Some TypeError, st1)
         | Inr (JObject generatedData) \<Rightarrow>
             (None, st1\<lparr>store := persist_pass env generatedData newInput (store st1)\<rparr>))"

text \<open>
  \<open>handleAutoSync\<close>: the \<open>catch\<close> block logs the exception and drops it, the
  \<open>finally\<close> block clears the flag.
\<close>

definition handleAutoSync :: "SyncEnv \<Rightarrow> AppState \<Rightarrow> AppState" where
  "handleAutoSync env st =
     (let newMessagesCount = int (length (personalMessages st)) - int (personalProcessedCount st)
      in if newMessagesCount \<le> 0 then st
         else (snd (handleAutoSync_try env (st\<lparr>isAutoSaving := True\<rparr>)))\<lparr>isAutoSaving := False\<rparr>)"

section \<open>Sending messages (components/ChatInterface.tsx)\<close>

text \<open>
  \<open>handleSend\<close> takes the stream it was rendered with, appends the user's message,
  writes that list (\<open>newHistory\<close>) with \<open>onUpdateMessages\<close>, awaits the reply and then
  writes \<open>newHistory\<close> followed by the reply. While a reply is awaited \<open>isTyping\<close>
  blocks further sends, but the chat view is rendered only while its tab is active: when
  the user leaves the tab and comes back, a new component starts with \<open>isTyping\<close>
  false, and the send of the old one still completes later. A session is the application
  state, the flag of the mounted component, and for every send that awaits its reply the
  \<open>newHistory\<close> it holds and whether its component is still the mounted one.
\<close>

record Session =
  appState :: AppState
  isTyping :: bool
  awaiting :: "(ChatMessage list \<times> bool) list"

definition start_session :: "storage \<Rightarrow> Session" where
  "start_session s = \<lparr>appState = mount s, isTyping = False, awaiting = []\<rparr>"

text \<open>The first half of \<open>handleSend\<close>, up to the \<open>await\<close>.\<close>

definition handleSend :: "Session \<Rightarrow> ChatMessage \<Rightarrow> Session" where
  "handleSend ss newUserMsg =
     (if isTyping ss then ss
      else (let newHistory = personalMessages (appState ss) @ [newUserMsg]
            in ss\<lparr>appState := updateCurrentChatMessages (appState ss) newHistory,
                  isTyping := True,
                  awaiting := awaiting ss @ [(newHistory, True)]\<rparr>))"

text \<open>
  The second half, for the send at position \<open>k\<close> among those awaiting: the reply (or the
  error message) is written after that send's \<open>newHistory\<close>; \<open>setIsTyping(false)\<close>
  acts only on a component that is still mounted.
\<close>

definition replyArrives :: "Session \<Rightarrow> nat \<Rightarrow> ChatMessage \<Rightarrow> Session" where
  "replyArrives ss k aiMsg =
     (if k < length (awaiting ss) then
        (let newHistory = fst (awaiting ss ! k);
             mounted = snd (awaiting ss ! k)
         in ss\<lparr>appState := updateCurrentChatMessages (appState ss) (newHistory @ [aiMsg]),
               isTyping := (if mounted then False else isTyping ss),
               awaiting := take k (awaiting ss) @ drop (Suc k) (awaiting ss)\<rparr>)
      else ss)"

text \<open>
  Leaving the chat tab and returning to it: the chat view is unmounted and a new one is
  mounted. The pass that the application starts when the tab is left while a debounced
  pass is scheduled is an event of its own (\<open>Flush\<close> below).
\<close>

definition remount :: "Session \<Rightarrow> Session" where
  "remount ss = ss\<lparr>isTyping := False, awaiting := map (\<lambda>p. (fst p, False)) (awaiting ss)\<rparr>"

text \<open>
  What happens to one stream over time: a send, the arrival of the reply to one of the
  sends that await theirs, a change of tab and back, and a consolidation pass (started
  by the debounce timer or by leaving the tab).
\<close>

datatype stream_event = Send ChatMessage | Reply nat ChatMessage | Remount | Flush SyncEnv

fun step :: "Session \<Rightarrow> stream_event \<Rightarrow> Session" where
  "step ss (Send m) = handleSend ss m"
| "step ss (Reply k m) = replyArrives ss k m"
| "step ss Remount = remount ss"
| "step ss (Flush env) = ss\<lparr>appState := handleAutoSync env (appState ss)\<rparr>"

definition run :: "Session \<Rightarrow> stream_event list \<Rightarrow> Session" where
  "run ss evs = foldl step ss evs"

section \<open>The Date object of the JavaScript library\<close>

text \<open>
  The part of \<open>Date\<close> that the calendar widget uses, after the ECMAScript language
  specification. A time value is a number of milliseconds since the epoch, or
  \<open>None\<close> for \<open>NaN\<close> (an invalid date). Months count from 0.
\<close>

definition msPerDay :: int where
  "msPerDay = 86400000"

definition Day :: "int \<Rightarrow> int" where
  "Day t = t div msPerDay"

definition TimeWithinDay :: "int \<Rightarrow> int" where
  "TimeWithinDay t = t mod msPerDay"

text \<open>
  The proleptic Gregorian calendar: the day number of a date (month from 1) and the
  date of a day number, by counting in eras of 400 years that start on 1 March.
\<close>

definition days_from_civil :: "int \<Rightarrow> int \<Rightarrow> int \<Rightarrow> int" where
  "days_from_civil y m d =
     (let y' = (if m \<le> 2 then y - 1 else y);
          era = y' div 400;
          yoe = y' mod 400;
          doy = (153 * (if m > 2 then m - 3 else m + 9) + 2) div 5 + d - 1;
          doe = yoe * 365 + yoe div 4 - yoe div 100 + doy
      in era * 146097 + doe - 719468)"

definition civil_from_days :: "int \<Rightarrow> int \<times> int \<times> int" where
  "civil_from_days z =
     (let z' = z + 719468;
          era = z' div 146097;
          doe = z' mod 146097;
          yoe = (doe - doe div 1460 + doe div 36524 - doe div 146096) div 365;
          doy = doe - (365 * yoe + yoe div 4 - yoe div 100);
          mp = (5 * doy + 2) div 153;
          d = doy - (153 * mp + 2) div 5 + 1;
          m = (if mp < 10 then mp + 3 else mp - 9);
          y = yoe + era * 400 + (if m \<le> 2 then 1 else 0)
      in (y, m, d))"

definition YearFromTime :: "int \<Rightarrow> int" where
  "YearFromTime t = fst (civil_from_days (Day t))"

definition MonthFromTime :: "int \<Rightarrow> int" where
  "MonthFromTime t = fst (snd (civil_from_days (Day t))) - 1"

definition DateFromTime :: "int \<Rightarrow> int" where
  "DateFromTime t = snd (snd (civil_from_days (Day t)))"

definition MakeDay :: "int \<Rightarrow> int \<Rightarrow> int \<Rightarrow> int" where
  "MakeDay year month date =
     (let ym = year + month div 12;
          mn = month mod 12
      in days_from_civil ym (mn + 1) 1 + date - 1)"

definition MakeDate :: "int \<Rightarrow> int \<Rightarrow> int" where
  "MakeDate day time = day * msPerDay + time"

definition TimeClip :: "int \<Rightarrow> int option" where
  "TimeClip t = (if \<bar>t\<bar> > 8640000000000000 then None else Some t)"

text \<open>
  The time zone of the browser: the offset from UTC in milliseconds at a UTC time
  value, and the offset to use for a local time value.
\<close>

record TimeZone =
  offset_at_utc :: "int \<Rightarrow> int"
  offset_at_local :: "int \<Rightarrow> int"

definition LocalTime :: "TimeZone \<Rightarrow> int \<Rightarrow> int" where
  "LocalTime tz t = t + offset_at_utc tz t"

definition UTC :: "TimeZone \<Rightarrow> int \<Rightarrow> int" where
  "UTC tz t = t - offset_at_local tz t"

definition getDate :: "TimeZone \<Rightarrow> int option \<Rightarrow> int option" where
  "getDate tz d = map_option (\<lambda>t. DateFromTime (LocalTime tz t)) d"

definition getMonth :: "TimeZone \<Rightarrow> int option \<Rightarrow> int option" where
  "getMonth tz d = map_option (\<lambda>t. MonthFromTime (LocalTime tz t)) d"

definition setDate :: "TimeZone \<Rightarrow> int option \<Rightarrow> int option \<Rightarrow> int option" where
  "setDate tz d dt =
     (case d of
        None \<Rightarrow> None
      | Some t0 \<Rightarrow>
          (case dt of
             None \<Rightarrow> None
           | Some n \<Rightarrow>
               (let t = LocalTime tz t0;
                    newDate = MakeDate (MakeDay (YearFromTime t) (MonthFromTime t) n)
                                       (TimeWithinDay t)
                in TimeClip (UTC tz newDate))))"

definition setMonth :: "TimeZone \<Rightarrow> int option \<Rightarrow> int option \<Rightarrow> int option" where
  "setMonth tz d mo =
     (case d of
        None \<Rightarrow> None
      | Some t0 \<Rightarrow>
          (case mo of
             None \<Rightarrow> None
           | Some m \<Rightarrow>
               (let t = LocalTime tz t0;
                    newDate = MakeDate (MakeDay (YearFromTime t) m (DateFromTime t))
                                       (TimeWithinDay t)
                in TimeClip (UTC tz newDate))))"

definition pad_left :: "nat \<Rightarrow> string \<Rightarrow> string" where
  "pad_left n s = replicate (n - length s) CHR ''0'' @ s"

definition iso_year :: "int \<Rightarrow> string" where
  "iso_year y =
     (if 0 \<le> y \<and> y \<le> 9999 then pad_left 4 (string_of_nat (nat y))
      else (if y < 0 then ''-'' else ''+'') @ pad_left 6 (string_of_nat (nat \<bar>y\<bar>)))"

text \<open>\<open>toISOString\<close> throws a \<open>RangeError\<close> on an invalid date.\<close>

definition toISOString :: "int option \<Rightarrow> exn + string" where
  "toISOString d =
     (case d of
        None \<Rightarrow> Inl RangeError
      | Some t \<Rightarrow>
          (let w = TimeWithinDay t
           in Inr (iso_year (YearFromTime t) @ ''-''
                   @ pad_left 2 (string_of_nat (nat (MonthFromTime t + 1))) @ ''-''
                   @ pad_left 2 (string_of_nat (nat (DateFromTime t))) @ ''T''
                   @ pad_left 2 (string_of_nat (nat (w div 3600000))) @ '':''
                   @ pad_left 2 (string_of_nat (nat (w div 60000 mod 60))) @ '':''
                   @ pad_left 2 (string_of_nat (nat (w div 1000 mod 60))) @ ''.''
                   @ pad_left 3 (string_of_nat (nat (w mod 1000))) @ ''Z'')))"

text \<open>
  \<open>new Date(s)\<close>. The date-only form \<open>YYYY-MM-DD\<close> is read as midnight UTC. For a
  string that is not a valid instance of that form the specification leaves the result
  to the engine, so it is taken from the environment (\<open>fallback\<close>).
\<close>

definition digit_value :: "char \<Rightarrow> nat option" where
  "digit_value c = findIndex (\<lambda>x. x = c) ''0123456789''"

fun digits_value :: "nat \<Rightarrow> string \<Rightarrow> nat option" where
  "digits_value acc [] = Some acc"
| "digits_value acc (c # cs) =
     (case digit_value c of None \<Rightarrow> None | Some v \<Rightarrow> digits_value (acc * 10 + v) cs)"

definition days_in_month :: "int \<Rightarrow> int \<Rightarrow> int" where
  "days_in_month y m =
     (if m = 2 then (if y mod 4 = 0 \<and> (y mod 100 \<noteq> 0 \<or> y mod 400 = 0) then 29 else 28)
      else if m = 4 \<or> m = 6 \<or> m = 9 \<or> m = 11 then 30 else 31)"

definition date_only :: "string \<Rightarrow> int option" where
  "date_only s =
     (if length s = 10 \<and> s ! 4 = CHR ''-'' \<and> s ! 7 = CHR ''-'' then
        (case digits_value 0 (take 4 s) of
           None \<Rightarrow> None
         | Some y \<Rightarrow>
             (case digits_value 0 (take 2 (drop 5 s)) of
                None \<Rightarrow> None
              | Some m \<Rightarrow>
                  (case digits_value 0 (drop 8 s) of
                     None \<Rightarrow> None
                   | Some d \<Rightarrow>
                       if 1 \<le> m \<and> m \<le> 12 \<and> 1 \<le> d \<and> int d \<le> days_in_month (int y) (int m)
                       then TimeClip (MakeDate (MakeDay (int y) (int m - 1) (int d)) 0)
                       else None)))
      else None)"

definition new_Date :: "(string \<Rightarrow> int option) \<Rightarrow> string \<Rightarrow> int option" where
  "new_Date fallback s = (case date_only s of Some t \<Rightarrow> Some t | None \<Rightarrow> fallback s)"

section \<open>Creating events in the calendar widget (components/CalendarWidget.tsx)\<close>

datatype RepeatMode = repeat_none | daily | weekly | monthly

record NewEventForm =
  f_title :: string
  f_description :: string
  f_date :: string
  f_startTime :: string
  f_endTime :: string
  f_repeat :: RepeatMode

record WidgetState =
  isModalOpen :: bool
  newEvent :: NewEventForm

text \<open>
  What \<open>handleSaveEvent\<close> takes from its environment: the time zone, what the engine
  makes of a date string outside the date-only form, for iteration \<open>i\<close> of the loop the
  value of \<open>Date.now()\<close> and the text \<open>Math.random().toString(36).substr(2, 9)\<close>, and
  today's date for the form reset.
\<close>

record WidgetEnv =
  w_tz :: TimeZone
  w_parse :: "string \<Rightarrow> int option"
  w_idNow :: "nat \<Rightarrow> nat"
  w_idRandom :: "nat \<Rightarrow> string"
  w_today :: string

definition repeat_count :: "RepeatMode \<Rightarrow> nat" where
  "repeat_count r =
     (if r = daily then 30 else if r = weekly then 12 else if r = monthly then 6 else 1)"

text \<open>\<open>d.getDate() + k\<close>, which is \<open>NaN\<close> on an invalid date.\<close>

definition plus_opt :: "int option \<Rightarrow> int \<Rightarrow> int option" where
  "plus_opt a k = map_option (\<lambda>x. x + k) a"

definition currentInstanceDate :: "TimeZone \<Rightarrow> RepeatMode \<Rightarrow> int option \<Rightarrow> nat \<Rightarrow> int option" where
  "currentInstanceDate tz r baseDate i =
     (let c0 = baseDate;
          c1 = (if r = daily then setDate tz c0 (plus_opt (getDate tz baseDate) (int i)) else c0);
          c2 = (if r = weekly then setDate tz c1 (plus_opt (getDate tz baseDate) (int i * 7))
                else c1);
          c3 = (if r = monthly then setMonth tz c2 (plus_opt (getMonth tz baseDate) (int i))
                else c2)
      in c3)"

text \<open>\<open>s.split('T')[0]\<close>.\<close>

definition before_T :: "string \<Rightarrow> string" where
  "before_T s = takeWhile (\<lambda>c. c \<noteq> CHR ''T'') s"

text \<open>One iteration of the loop: the event it pushes, or the exception it throws.\<close>

definition instance_event :: "WidgetEnv \<Rightarrow> NewEventForm \<Rightarrow> int option \<Rightarrow> nat \<Rightarrow> exn + CalendarEvent" where
  "instance_event env form baseDate i =
     (case toISOString (currentInstanceDate (w_tz env) (f_repeat form) baseDate i) of
        Inl e \<Rightarrow> Inl e
      | Inr isoText \<Rightarrow>
          Inr \<lparr>evt_id = string_of_nat (w_idNow env i) @ w_idRandom env i,
               evt_title = f_title form,
               evt_startTime = Some (before_T isoText @ ''T'' @ f_startTime form @ '':00''),
               evt_endTime = Some (before_T isoText @ ''T'' @ f_endTime form @ '':00''),
               evt_description = Some (f_description form),
               evt_linkedEntryId = None\<rparr>)"

text \<open>The loop stops at the first exception.\<close>

fun collect :: "(exn + 'a) list \<Rightarrow> exn + 'a list" where
  "collect [] = Inr []"
| "collect (Inl e # rs) = Inl e"
| "collect (Inr x # rs) = (case collect rs of Inl e \<Rightarrow> Inl e | Inr xs \<Rightarrow> Inr (x # xs))"

definition eventsToCreate :: "WidgetEnv \<Rightarrow> NewEventForm \<Rightarrow> exn + CalendarEvent list" where
  "eventsToCreate env form =
     collect (map (instance_event env form (new_Date (w_parse env) (f_date form)))
                  [0 ..< repeat_count (f_repeat form)])"

definition mirror_task :: "CalendarEvent \<Rightarrow> Task" where
  "mirror_task evt =
     \<lparr>task_id = ''task-mirror-'' @ evt_id evt,
      task_title = evt_title evt,
      task_completed = False,
      task_dueDate = evt_startTime evt,
      task_linkedEntryId = Some (evt_id evt)\<rparr>"

definition reset_form :: "WidgetEnv \<Rightarrow> NewEventForm" where
  "reset_form env =
     \<lparr>f_title = [], f_description = [], f_date = w_today env,
      f_startTime = ''09:00'', f_endTime = ''10:00'', f_repeat = repeat_none\<rparr>"

text \<open>
  \<open>handleSaveEvent\<close>. An incomplete form only raises an alert; an exception leaves the
  handler before anything is written.
\<close>

definition handleSaveEvent ::
  "WidgetEnv \<Rightarrow> WidgetState \<times> storage \<Rightarrow> exn + (WidgetState \<times> storage)" where
  "handleSaveEvent env ws =
     (let form = newEvent (fst ws)
      in if f_title form = [] \<or> f_date form = [] \<or> f_startTime form = [] \<or> f_endTime form = []
         then Inr ws
         else (case eventsToCreate env form of
                 Inl e \<Rightarrow> Inl e
               | Inr events \<Rightarrow>
                   (let s1 = addCalendarEvents (snd ws) events;
                        tasksToCreate = map mirror_task events;
                        s2 = saveTasks s1 tasksToCreate
                    in Inr (\<lparr>isModalOpen = False, newEvent = reset_form env\<rparr>, s2))))"

section \<open>Definitions used to state the properties\<close>

text \<open>
  Merge by id as the specification words it for the persistence gateway: a record whose
  id is already in the collection replaces the record with that id, a record with a new
  id is appended.
\<close>

definition merge_by_id :: "('a \<Rightarrow> string) \<Rightarrow> 'a list \<Rightarrow> 'a \<Rightarrow> 'a list" where
  "merge_by_id key xs r =
     (if key r \<in> key ` set xs then map (\<lambda>x. if key x = key r then r else x) xs else xs @ [r])"

text \<open>
  The failure classes as the specification words them, read off the HTTP status: rate
  limited (429), server overload (5xx), not found (404), forbidden (403), other.
\<close>

datatype ErrorClass = RateLimited | ServerOverload | NotFound | Forbidden | Other

definition spec_class :: "ApiError \<Rightarrow> ErrorClass" where
  "spec_class e =
     (case err_status e of
        None \<Rightarrow> Other
      | Some c \<Rightarrow>
          if c = 429 then RateLimited
          else if 500 \<le> c \<and> c \<le> 599 then ServerOverload
          else if c = 404 then NotFound
          else if c = 403 then Forbidden
          else Other)"

text \<open>A browser storage with no key set.\<close>

definition empty_storage :: storage where
  "empty_storage =
     \<lparr>STORAGE_KEY = Absent, CALENDAR_KEY = Absent, TASKS_KEY = Absent, FINANCE_KEY = Absent,
      CHAT_PERSONAL_KEY = Absent, CHAT_PROF_KEY = Absent, BACKUP_TIMESTAMP_KEY = None\<rparr>"

text \<open>Records used as concrete inputs.\<close>

definition example_tx :: FinanceTransaction where
  "example_tx =
     \<lparr>tx_id = ''t1'', tx_amount = 50, tx_type = expense, tx_category = Some ''Food'',
      tx_description = ''Lunch'', tx_date = ''2024-03-25T12:00:00.000Z'',
      tx_linkedEntryId = None\<rparr>"

definition example_event :: CalendarEvent where
  "example_event =
     \<lparr>evt_id = ''e1'', evt_title = ''Dentist'', evt_startTime = Some ''2024-03-26T09:00:00'',
      evt_endTime = Some ''2024-03-26T10:00:00'', evt_description = None,
      evt_linkedEntryId = None\<rparr>"

definition example_task :: Task where
  "example_task =
     \<lparr>task_id = ''k1'', task_title = ''Buy milk'', task_completed = False,
      task_dueDate = None, task_linkedEntryId = None\<rparr>"

definition example_entry :: JournalEntry where
  "example_entry =
     \<lparr>e_id = ''j1'', e_title = ''Market'', e_content = ''Went to the market'',
      e_date = ''2024-03-25T12:00:00.000Z'', e_mode = PERSONAL, e_tags = [],
      e_calendarEvents = None, e_tasks = None, e_transactions = None, e_media = None,
      e_lastModified = 1711368000000\<rparr>"

definition example_storage :: storage where
  "example_storage =
     empty_storage\<lparr>STORAGE_KEY := Stored [example_entry], CALENDAR_KEY := Stored [example_event],
                   TASKS_KEY := Stored [example_task], FINANCE_KEY := Stored [example_tx]\<rparr>"

text \<open>Errors of several classes, and operations that fail before they succeed.\<close>

definition overload_error :: ApiError where
  "overload_error = \<lparr>err_status = Some 503, err_message = Some ''The model is overloaded''\<rparr>"

definition rate_limit_error :: ApiError where
  "rate_limit_error = \<lparr>err_status = Some 429, err_message = Some ''Resource exhausted''\<rparr>"

definition not_found_error :: ApiError where
  "not_found_error = \<lparr>err_status = Some 404, err_message = Some ''model is not found''\<rparr>"

definition bad_gateway_error :: ApiError where
  "bad_gateway_error = \<lparr>err_status = Some 502, err_message = Some ''Bad Gateway''\<rparr>"

definition fails_twice :: "ApiError \<Rightarrow> nat \<Rightarrow> response outcome" where
  "fails_twice e i = (if i < 2 then Rejects e else Resolves (Parses (JObject empty_object)))"

definition always_fails :: "ApiError \<Rightarrow> nat \<Rightarrow> response outcome" where
  "always_fails e i = Rejects e"

text \<open>A message, a state with one unprocessed message, and an environment whose service is down.\<close>

definition example_message :: ChatMessage where
  "example_message =
     \<lparr>msg_id = ''1711368000000'', msg_role = user, msg_text = ''Went to the market'',
      msg_timestamp = 1711368000000, msg_attachment = None\<rparr>"

definition example_state :: AppState where
  "example_state =
     \<lparr>personalMessages = [example_message], personalProcessedCount = 0, isAutoSaving = False,
      store = empty_storage\<rparr>"

definition example_env :: "service \<Rightarrow> SyncEnv" where
  "example_env svc =
     \<lparr>env_apiKey = Some ''key'', env_service = svc, env_now = 1711368002000,
      env_isoNow = ''2024-03-25T12:00:02.000Z'', env_localeTime = ''12:00:02 PM'',
      env_weekday = ''Monday'', env_localeDate = ''3/25/2024''\<rparr>"

text \<open>A service that is down for every request.\<close>

definition service_down :: service where
  "service_down rq = always_fails overload_error"

text \<open>
  Messages as \<open>handleSend\<close> builds them when nothing was typed: the text is a line
  break and the attachment marker. One carries a photo, the other a text file.
\<close>

definition photo_message :: ChatMessage where
  "photo_message =
     \<lparr>msg_id = ''1711368000000'', msg_role = user,
      msg_text = CHR 0x0A # ''[Attachment: bill.jpg]'', msg_timestamp = 1711368000000,
      msg_attachment = Some \<lparr>att_type = image_attachment, att_content = ''/9j/4AAQ'',
                             att_mimeType = Some ''image/jpeg'', att_name = Some ''bill.jpg''\<rparr>\<rparr>"

definition file_message :: ChatMessage where
  "file_message =
     \<lparr>msg_id = ''1711368000000'', msg_role = user,
      msg_text = CHR 0x0A # ''[Attachment: notes.txt]'', msg_timestamp = 1711368000000,
      msg_attachment = Some \<lparr>att_type = text_attachment, att_content = ''milk, eggs'',
                             att_mimeType = None, att_name = Some ''notes.txt''\<rparr>\<rparr>"

text \<open>Extraction results: no narrative; a narrative flag with a task but no content;
  candidates that lack their dates.\<close>

definition no_content_result :: GeneratedData where
  "no_content_result = empty_object\<lparr>g_hasContent := Some False\<rparr>"

definition task_only_result :: GeneratedData where
  "task_only_result =
     empty_object\<lparr>g_hasContent := Some True,
                  g_tasks := Some [\<lparr>tc_title = ''Buy milk'', tc_dueDate = None\<rparr>]\<rparr>"

definition undated_result :: GeneratedData where
  "undated_result =
     empty_object\<lparr>g_hasContent := Some False,
        g_calendarEvents := Some [\<lparr>ec_title = ''Dentist'', ec_startTime = None,
                                   ec_endTime = None, ec_description = None\<rparr>],
        g_tasks := Some [\<lparr>tc_title = ''Buy milk'', tc_dueDate = None\<rparr>],
        g_transactions := Some [\<lparr>xc_description = ''Lunch'', xc_amount = 50, xc_type = expense,
                                  xc_category = None, xc_date = None\<rparr>]\<rparr>"

text \<open>A service that answers every call with the given object.\<close>

definition answers :: "GeneratedData \<Rightarrow> service" where
  "answers g rq i = Resolves (Parses (JObject g))"

text \<open>A stream whose only unprocessed message is the text file sent without typed text.\<close>

definition attachment_only_state :: AppState where
  "attachment_only_state =
     \<lparr>personalMessages = [file_message], personalProcessedCount = 0, isAutoSaving = False,
      store = empty_storage\<rparr>"

text \<open>
  A time zone one hour ahead of UTC until 2024-03-31T01:00:00Z and two hours ahead from
  then on, as Central European Time is in the first half of 2024. A local time that the
  change skips is read with the offset before the change.
\<close>

definition central_european_2024 :: TimeZone where
  "central_european_2024 =
     \<lparr>offset_at_utc = (\<lambda>t. if t < 1711846800000 then 3600000 else 7200000),
      offset_at_local = (\<lambda>t. if t < 1711854000000 then 3600000 else 7200000)\<rparr>"

text \<open>A weekly event from 25 March 2024, entered in that time zone.\<close>

definition weekly_form :: NewEventForm where
  "weekly_form =
     \<lparr>f_title = ''Gym'', f_description = ''Leg day'', f_date = ''2024-03-25'',
      f_startTime = ''09:00'', f_endTime = ''10:00'', f_repeat = weekly\<rparr>"

definition weekly_env :: WidgetEnv where
  "weekly_env =
     \<lparr>w_tz = central_european_2024, w_parse = (\<lambda>s. None), w_idNow = (\<lambda>i. 1710930000000),
      w_idRandom = (\<lambda>i. ''x7f2q9k'' @ string_of_nat i), w_today = ''2024-03-20''\<rparr>"

text \<open>Instance \<open>i\<close> of that event, on the date \<open>d\<close>.\<close>

definition weekly_instance :: "nat \<Rightarrow> string \<Rightarrow> CalendarEvent" where
  "weekly_instance i d =
     \<lparr>evt_id = ''1710930000000x7f2q9k'' @ string_of_nat i, evt_title = ''Gym'',
      evt_startTime = Some (d @ ''T09:00:00''), evt_endTime = Some (d @ ''T10:00:00''),
      evt_description = Some ''Leg day'', evt_linkedEntryId = None\<rparr>"

text \<open>Two messages of the user and the replies to them.\<close>

definition first_question :: ChatMessage where
  "first_question = example_message"

definition second_question :: ChatMessage where
  "second_question = example_message\<lparr>msg_id := ''1711368030000'', msg_text := ''Bought rice''\<rparr>"

definition first_reply :: ChatMessage where
  "first_reply = example_message\<lparr>msg_id := ''1711368040001'', msg_role := model,
                                 msg_text := ''Sounds like a good trip.''\<rparr>"

definition second_reply :: ChatMessage where
  "second_reply = example_message\<lparr>msg_id := ''1711368032001'', msg_role := model,
                                  msg_text := ''Noted.''\<rparr>"

definition third_question :: ChatMessage where
  "third_question = example_message\<lparr>msg_id := ''1711368050000'', msg_text := ''Paid 50 for lunch''\<rparr>"

text \<open>
  While the chat view stays mounted at most one send awaits its reply, and the list it
  holds is the stream itself.
\<close>

definition settled :: "Session \<Rightarrow> bool" where
  "settled ss \<longleftrightarrow>
     personalProcessedCount (appState ss) \<le> length (personalMessages (appState ss))
     \<and> (if isTyping ss then awaiting ss = [(personalMessages (appState ss), True)]
         else awaiting ss = [])"

text \<open>
  A photo whose file name holds a bracket, sent without typed text, and a stored event
  that already has the id the next pass derives for its first event.
\<close>

definition bracket_photo_message :: ChatMessage where
  "bracket_photo_message =
     \<lparr>msg_id = ''1711368000000'', msg_role = user,
      msg_text = CHR 0x0A # ''[Attachment: IMG[1].jpg]'', msg_timestamp = 1711368000000,
      msg_attachment = Some \<lparr>att_type = image_attachment, att_content = ''/9j/4AAQ'',
                             att_mimeType = Some ''image/jpeg'', att_name = Some ''IMG[1].jpg''\<rparr>\<rparr>"

definition clashing_event :: CalendarEvent where
  "clashing_event = example_event\<lparr>evt_id := ''1711368002000-evt-0''\<rparr>"

section \<open>Persistence: merge by id, backup and restore\<close>

lemma findIndex_None_iff: "findIndex p xs = None \<longleftrightarrow> (\<forall>x \<in> set xs. \<not> p x)"
  by (induction xs) (auto split: option.splits)

lemma findIndex_SomeD:
  "findIndex p xs = Some i \<Longrightarrow> i < length xs \<and> p (xs ! i) \<and> (\<forall>j < i. \<not> p (xs ! j))"
proof (induction xs arbitrary: i)
  case Nil
  then show ?case by simp
next
  case (Cons x xs)
  show ?case
  proof (cases "p x")
    case True
    with Cons.prems show ?thesis by simp
  next
    case False
    with Cons.prems obtain k where k: "findIndex p xs = Some k" "i = Suc k"
      by (auto split: option.splits)
    from Cons.IH[OF k(1)] have ih: "k < length xs" "p (xs ! k)" "\<forall>j < k. \<not> p (xs ! j)"
      by auto
    have "\<not> p ((x # xs) ! j)" if "j < i" for j
    proof (cases j)
      case 0
      with False show ?thesis by simp
    next
      case (Suc j')
      with that k(2) ih(3) show ?thesis by simp
    qed
    with ih k(2) show ?thesis by simp
  qed
qed

text \<open>
  On a collection with distinct ids, "replace at the index \<open>findIndex\<close> gives, else
  push" is the merge of the specification.
\<close>

lemma upsert_is_merge:
  assumes "distinct (map key xs)"
  shows "(case findIndex (\<lambda>x. key x = key r) xs of
            Some i \<Rightarrow> xs[i := r] | None \<Rightarrow> xs @ [r]) = merge_by_id key xs r"
proof (cases "findIndex (\<lambda>x. key x = key r) xs")
  case None
  then have "key r \<notin> key ` set xs"
    by (auto simp: findIndex_None_iff)
  with None show ?thesis by (simp add: merge_by_id_def)
next
  case (Some i)
  from findIndex_SomeD[OF Some] have i: "i < length xs" "key (xs ! i) = key r" by auto
  then have mem: "key r \<in> key ` set xs"
    by (metis image_eqI nth_mem)
  have "xs[i := r] = map (\<lambda>x. if key x = key r then r else x) xs"
  proof (rule nth_equalityI)
    show "length (xs[i := r]) = length (map (\<lambda>x. if key x = key r then r else x) xs)" by simp
  next
    fix j assume "j < length (xs[i := r])"
    then have j: "j < length xs" by simp
    show "xs[i := r] ! j = map (\<lambda>x. if key x = key r then r else x) xs ! j"
    proof (cases "j = i")
      case True
      with i j show ?thesis by simp
    next
      case False
      have "key (xs ! j) \<noteq> key r"
      proof
        assume "key (xs ! j) = key r"
        then have "map key xs ! j = map key xs ! i" using i j by simp
        with nth_eq_iff_index_eq[OF assms, of j i] i j have "j = i" by simp
        with False show False by simp
      qed
      with False j show ?thesis by simp
    qed
  qed
  with Some mem show ?thesis by (simp add: merge_by_id_def)
qed

lemma map_key_merge:
  "map key (merge_by_id key xs r) =
     (if key r \<in> key ` set xs then map key xs else map key xs @ [key r])"
  by (auto simp: merge_by_id_def intro: map_idI)

lemma distinct_merge: "distinct (map key xs) \<Longrightarrow> distinct (map key (merge_by_id key xs r))"
  by (auto simp: map_key_merge)

lemma distinct_foldl_merge:
  "distinct (map key xs) \<Longrightarrow> distinct (map key (foldl (merge_by_id key) xs rs))"
  by (induction rs arbitrary: xs) (auto simp: distinct_merge)

lemma saveTasks_step_merge:
  "distinct (map task_id xs) \<Longrightarrow> saveTasks_step xs t = merge_by_id task_id xs t"
  unfolding saveTasks_step_def by (rule upsert_is_merge)

lemma foldl_saveTasks_step_merge:
  "distinct (map task_id xs) \<Longrightarrow>
     foldl saveTasks_step xs ts = foldl (merge_by_id task_id) xs ts"
  by (induction ts arbitrary: xs) (auto simp: saveTasks_step_merge distinct_merge)

lemma find_None_iff_notin: "(List.find (\<lambda>c. key c = k) xs = None) \<longleftrightarrow> k \<notin> key ` set xs"
  by (auto simp: find_None_iff)

lemma getEntries_saveEntry:
  "getEntries (saveEntry s e) =
     (case findIndex (\<lambda>x. e_id x = e_id e) (getEntries s) of
        Some i \<Rightarrow> (getEntries s)[i := e] | None \<Rightarrow> getEntries s @ [e])"
  by (simp add: saveEntry_def Let_def getEntries_def read_cell_def split: option.splits)

lemma getTasks_saveTasks: "getTasks (saveTasks s ts) = foldl saveTasks_step (getTasks s) ts"
  by (simp add: saveTasks_def getTasks_def read_cell_def)

lemma getCalendarEvents_addCalendarEvents:
  "getCalendarEvents (addCalendarEvents s evs) =
     getCalendarEvents s @ filter (\<lambda>ev. evt_id ev \<notin> evt_id ` set (getCalendarEvents s)) evs"
  by (simp add: addCalendarEvents_def Let_def getCalendarEvents_def read_cell_def
      find_None_iff_notin)

lemma getTransactions_addTransactions:
  "getTransactions (addTransactions s txs) = getTransactions s @ txs"
  by (simp add: addTransactions_def getTransactions_def read_cell_def)

lemmas getters = getEntries_def getCalendarEvents_def getTasks_def getTransactions_def
  getChatHistory_def read_cell_def

lemmas examples = empty_storage_def example_storage_def example_tx_def example_event_def
  example_task_def example_entry_def

text \<open>
  C4, as the code has it. \<open>saveEntry\<close> and \<open>saveTasks\<close> merge by id on a collection
  whose ids are distinct (a record with an id present replaces the record with that id,
  a record with a new id is appended) and keep the ids distinct. \<open>addCalendarEvents\<close>
  keeps every stored event and appends only the written events whose id is not stored
  yet, so an event with a stored id is not replaced; the ids stay distinct when the
  written events have distinct ids. \<open>addTransactions\<close> appends every written
  transaction, whatever its id.
\<close>

theorem put_operations_semantics:
  "(distinct (map e_id (getEntries s)) \<longrightarrow>
      getEntries (saveEntry s e) = merge_by_id e_id (getEntries s) e
      \<and> distinct (map e_id (getEntries (saveEntry s e))))
   \<and> (distinct (map task_id (getTasks s)) \<longrightarrow>
      getTasks (saveTasks s ts) = foldl (merge_by_id task_id) (getTasks s) ts
      \<and> distinct (map task_id (getTasks (saveTasks s ts))))
   \<and> getCalendarEvents (addCalendarEvents s evs) =
        getCalendarEvents s @ filter (\<lambda>ev. evt_id ev \<notin> evt_id ` set (getCalendarEvents s)) evs
   \<and> (distinct (map evt_id (getCalendarEvents s)) \<and> distinct (map evt_id evs) \<longrightarrow>
        distinct (map evt_id (getCalendarEvents (addCalendarEvents s evs))))
   \<and> getTransactions (addTransactions s txs) = getTransactions s @ txs"
proof (intro conjI impI)
  assume d: "distinct (map e_id (getEntries s))"
  show m: "getEntries (saveEntry s e) = merge_by_id e_id (getEntries s) e"
    using upsert_is_merge[OF d, of e] by (simp add: getEntries_saveEntry)
  show "distinct (map e_id (getEntries (saveEntry s e)))"
    unfolding m using d by (rule distinct_merge)
next
  assume d: "distinct (map task_id (getTasks s))"
  show m: "getTasks (saveTasks s ts) = foldl (merge_by_id task_id) (getTasks s) ts"
    using foldl_saveTasks_step_merge[OF d, of ts] by (simp add: getTasks_saveTasks)
  show "distinct (map task_id (getTasks (saveTasks s ts)))"
    unfolding m using d by (rule distinct_foldl_merge)
next
  show "getCalendarEvents (addCalendarEvents s evs) =
        getCalendarEvents s @ filter (\<lambda>ev. evt_id ev \<notin> evt_id ` set (getCalendarEvents s)) evs"
    by (rule getCalendarEvents_addCalendarEvents)
next
  assume "distinct (map evt_id (getCalendarEvents s)) \<and> distinct (map evt_id evs)"
  then show "distinct (map evt_id (getCalendarEvents (addCalendarEvents s evs)))"
    unfolding getCalendarEvents_addCalendarEvents
    by (auto simp: distinct_map_filter) (metis imageI)
next
  show "getTransactions (addTransactions s txs) = getTransactions s @ txs"
    by (rule getTransactions_addTransactions)
qed

theorem put_operations_semantics_witness:
  "distinct (map e_id (getEntries example_storage))
   \<and> getEntries (saveEntry example_storage (example_entry\<lparr>e_title := ''Bazaar''\<rparr>))
       = [example_entry\<lparr>e_title := ''Bazaar''\<rparr>]
   \<and> distinct (map task_id (getTasks example_storage))
   \<and> getTasks (saveTasks example_storage
         [example_task\<lparr>task_completed := True\<rparr>, example_task\<lparr>task_id := ''k2''\<rparr>])
       = [example_task\<lparr>task_completed := True\<rparr>, example_task\<lparr>task_id := ''k2''\<rparr>]
   \<and> distinct (map evt_id (getCalendarEvents example_storage))
   \<and> distinct (map evt_id [example_event\<lparr>evt_title := ''Doctor''\<rparr>, example_event\<lparr>evt_id := ''e2''\<rparr>])
   \<and> getCalendarEvents (addCalendarEvents example_storage
         [example_event\<lparr>evt_title := ''Doctor''\<rparr>, example_event\<lparr>evt_id := ''e2''\<rparr>])
       = [example_event, example_event\<lparr>evt_id := ''e2''\<rparr>]
   \<and> distinct (map evt_id (getCalendarEvents (addCalendarEvents example_storage
         [example_event\<lparr>evt_title := ''Doctor''\<rparr>, example_event\<lparr>evt_id := ''e2''\<rparr>])))"
  using put_operations_semantics[of example_storage "example_entry\<lparr>e_title := ''Bazaar''\<rparr>"
      "[example_task\<lparr>task_completed := True\<rparr>, example_task\<lparr>task_id := ''k2''\<rparr>]"
      "[example_event\<lparr>evt_title := ''Doctor''\<rparr>, example_event\<lparr>evt_id := ''e2''\<rparr>]" "[]"]
  by (simp add: getters examples merge_by_id_def)

text \<open>
  C4 as stated fails: writing a transaction whose id is stored leaves two records with
  that id, and writing an event whose id is stored leaves the stored event as it was.
\<close>

theorem put_operations_counterexample:
  "getTransactions (addTransactions example_storage [example_tx\<lparr>tx_amount := 75\<rparr>])
     = [example_tx, example_tx\<lparr>tx_amount := 75\<rparr>]
   \<and> \<not> distinct (map tx_id
         (getTransactions (addTransactions example_storage [example_tx\<lparr>tx_amount := 75\<rparr>])))
   \<and> getCalendarEvents (addCalendarEvents example_storage [example_event\<lparr>evt_title := ''Doctor''\<rparr>])
     = [example_event]"
  by (simp add: getters examples addTransactions_def addCalendarEvents_def)

text \<open>
  C10: restoring the object that \<open>getAllData\<close> returns leaves every collection, as its
  getter reads it, unchanged.
\<close>

theorem restore_of_backup_roundtrip:
  "getEntries (restoreData s (getAllData s now)) = getEntries s
   \<and> getCalendarEvents (restoreData s (getAllData s now)) = getCalendarEvents s
   \<and> getTasks (restoreData s (getAllData s now)) = getTasks s
   \<and> getTransactions (restoreData s (getAllData s now)) = getTransactions s
   \<and> getChatHistory (restoreData s (getAllData s now)) PERSONAL = getChatHistory s PERSONAL
   \<and> getChatHistory (restoreData s (getAllData s now)) PROFESSIONAL
       = getChatHistory s PROFESSIONAL"
  by (simp add: restoreData_def getAllData_def Let_def getters getLastBackupTime_def
      split: option.splits)

section \<open>Retry policy and extraction failure\<close>

lemma runWithRetry_loop_attempts:
  "rr_attempts (runWithRetry_loop operation retries i delays) \<le> max i retries"
proof (induction operation retries i delays rule: runWithRetry_loop.induct)
  case (1 operation retries i delays)
  show ?case
  proof (cases "i < retries")
    case False
    then show ?thesis by (simp add: runWithRetry_loop.simps)
  next
    case True
    show ?thesis
    proof (cases "operation i")
      case (Resolves v)
      with True show ?thesis by (simp add: runWithRetry_loop.simps)
    next
      case (Rejects error)
      show ?thesis
      proof (cases "\<not> isNotFound error \<and> (isRateLimit error \<or> isServerIssue error) \<and> i < retries - 1")
        case False
        with True Rejects show ?thesis
          by (auto simp: runWithRetry_loop.simps)
      next
        case retry: True
        then have "rr_attempts (runWithRetry_loop operation retries (i + 1)
                     (delays @ [(if isRateLimit error then 3000 else 2000) * 2 ^ i]))
                   \<le> max (i + 1) retries"
          using "1.IH"[OF True Rejects] by simp
        with True Rejects retry show ?thesis
          by (simp add: runWithRetry_loop.simps[of operation retries i] Let_def)
      qed
    qed
  qed
qed

lemma retry_after_transient:
  assumes "operation i = Rejects error" and "\<not> isNotFound error"
    and "isRateLimit error \<or> isServerIssue error" and "i < retries - 1"
    and "j = i + 1" and "delays' = delays @ [(if isRateLimit error then 3000 else 2000) * 2 ^ i]"
  shows "runWithRetry_loop operation retries i delays =
           runWithRetry_loop operation retries j delays'"
  using assms by (simp add: runWithRetry_loop.simps[of operation retries i] Let_def)

lemma return_on_success:
  assumes "operation i = Resolves v" and "i < retries"
  shows "runWithRetry_loop operation retries i delays =
           \<lparr>rr_result = Inr v, rr_attempts = i + 1, rr_delays = delays\<rparr>"
  using assms by (simp add: runWithRetry_loop.simps[of operation retries i])

lemma rethrow_not_found:
  assumes "operation i = Rejects error" and "isNotFound error" and "i < retries"
  shows "runWithRetry_loop operation retries i delays =
           \<lparr>rr_result = Inl (ApiFailure error), rr_attempts = i + 1, rr_delays = delays\<rparr>"
  using assms by (simp add: runWithRetry_loop.simps[of operation retries i])

lemma rethrow_other:
  assumes "operation i = Rejects error" and "\<not> isRateLimit error" and "\<not> isServerIssue error"
    and "i < retries"
  shows "runWithRetry_loop operation retries i delays =
           \<lparr>rr_result = Inl (ApiFailure error), rr_attempts = i + 1, rr_delays = delays\<rparr>"
  using assms by (simp add: runWithRetry_loop.simps[of operation retries i])

text \<open>
  C6, as the code has it. \<open>runWithRetry\<close> invokes the wrapped call at most 3 times. The
  errors it retries are those its own tests accept: a server issue is status 500 or 503,
  or a message containing \<open>500\<close>, \<open>503\<close> or \<open>Internal error\<close>; a rate limit is
  status 429, or a message containing \<open>429\<close> or \<open>quota\<close>. A call that fails twice
  with server issues that pass neither the rate limit test nor the not-found test and
  then succeeds is invoked exactly 3 times and returns the value, after waits of 2000 ms
  and 4000 ms, the second the double of the first. With errors that pass the rate limit
  test and not the not-found test the waits are 3000 ms and 6000 ms. An error that
  passes the not-found test (status 404, or a message containing \<open>404\<close> or
  \<open>not found\<close>) is rethrown at once, in whichever attempt it occurs, and so is an error
  that passes none of the tests, such as a 502; neither is waited for or retried.
\<close>

theorem runWithRetry_policy:
  "rr_attempts (runWithRetry operation default_retries) \<le> 3
   \<and> (operation 0 = Rejects e0 \<and> isServerIssue e0 \<and> \<not> isRateLimit e0 \<and> \<not> isNotFound e0
        \<and> operation 1 = Rejects e1 \<and> isServerIssue e1 \<and> \<not> isRateLimit e1 \<and> \<not> isNotFound e1
        \<and> operation 2 = Resolves v \<longrightarrow>
        runWithRetry operation default_retries =
          \<lparr>rr_result = Inr v, rr_attempts = 3, rr_delays = [2000, 2 * 2000]\<rparr>)
   \<and> (operation 0 = Rejects e0 \<and> isRateLimit e0 \<and> \<not> isNotFound e0
        \<and> operation 1 = Rejects e1 \<and> isRateLimit e1 \<and> \<not> isNotFound e1
        \<and> operation 2 = Resolves v \<longrightarrow>
        runWithRetry operation default_retries =
          \<lparr>rr_result = Inr v, rr_attempts = 3, rr_delays = [3000, 2 * 3000]\<rparr>)
   \<and> (i < retries \<and> operation i = Rejects e
        \<and> (isNotFound e \<or> (\<not> isRateLimit e \<and> \<not> isServerIssue e)) \<longrightarrow>
        runWithRetry_loop operation retries i delays =
          \<lparr>rr_result = Inl (ApiFailure e), rr_attempts = i + 1, rr_delays = delays\<rparr>)
   \<and> ((err_status e = Some 500 \<or> err_status e = Some 503) \<and> err_message e = None \<longrightarrow>
        isServerIssue e \<and> \<not> isRateLimit e \<and> \<not> isNotFound e)
   \<and> (err_status e = Some 429 \<and> err_message e = None \<longrightarrow> isRateLimit e \<and> \<not> isNotFound e)
   \<and> (err_status e = Some 404 \<longrightarrow> isNotFound e)"
proof (intro conjI impI)
  show "rr_attempts (runWithRetry operation default_retries) \<le> 3"
    using runWithRetry_loop_attempts[of operation 3 0 "[]"]
    by (simp add: runWithRetry_def default_retries_def)
next
  assume a: "operation 0 = Rejects e0 \<and> isServerIssue e0 \<and> \<not> isRateLimit e0 \<and> \<not> isNotFound e0
        \<and> operation 1 = Rejects e1 \<and> isServerIssue e1 \<and> \<not> isRateLimit e1 \<and> \<not> isNotFound e1
        \<and> operation 2 = Resolves v"
  have s0: "runWithRetry_loop operation 3 0 [] = runWithRetry_loop operation 3 1 [2000]"
    by (rule retry_after_transient[where error = e0]) (use a in simp_all)
  have s1: "runWithRetry_loop operation 3 1 [2000] =
              runWithRetry_loop operation 3 2 [2000, 4000]"
    by (rule retry_after_transient[where error = e1]) (use a in simp_all)
  have s2: "runWithRetry_loop operation 3 2 [2000, 4000] =
              \<lparr>rr_result = Inr v, rr_attempts = 3, rr_delays = [2000, 4000]\<rparr>"
    by (rule return_on_success[of operation 2 v 3 "[2000, 4000]", simplified]) (use a in simp_all)
  show "runWithRetry operation default_retries =
          \<lparr>rr_result = Inr v, rr_attempts = 3, rr_delays = [2000, 2 * 2000]\<rparr>"
    unfolding runWithRetry_def default_retries_def s0 s1 s2 by simp
next
  assume a: "operation 0 = Rejects e0 \<and> isRateLimit e0 \<and> \<not> isNotFound e0
        \<and> operation 1 = Rejects e1 \<and> isRateLimit e1 \<and> \<not> isNotFound e1
        \<and> operation 2 = Resolves v"
  have s0: "runWithRetry_loop operation 3 0 [] = runWithRetry_loop operation 3 1 [3000]"
    by (rule retry_after_transient[where error = e0]) (use a in simp_all)
  have s1: "runWithRetry_loop operation 3 1 [3000] =
              runWithRetry_loop operation 3 2 [3000, 6000]"
    by (rule retry_after_transient[where error = e1]) (use a in simp_all)
  have s2: "runWithRetry_loop operation 3 2 [3000, 6000] =
              \<lparr>rr_result = Inr v, rr_attempts = 3, rr_delays = [3000, 6000]\<rparr>"
    by (rule return_on_success[of operation 2 v 3 "[3000, 6000]", simplified]) (use a in simp_all)
  show "runWithRetry operation default_retries =
          \<lparr>rr_result = Inr v, rr_attempts = 3, rr_delays = [3000, 2 * 3000]\<rparr>"
    unfolding runWithRetry_def default_retries_def s0 s1 s2 by simp
next
  assume a: "i < retries \<and> operation i = Rejects e
        \<and> (isNotFound e \<or> (\<not> isRateLimit e \<and> \<not> isServerIssue e))"
  show "runWithRetry_loop operation retries i delays =
          \<lparr>rr_result = Inl (ApiFailure e), rr_attempts = i + 1, rr_delays = delays\<rparr>"
  proof (cases "isNotFound e")
    case True
    with a show ?thesis using rethrow_not_found[of operation i e retries delays] by simp
  next
    case False
    with a show ?thesis using rethrow_other[of operation i e retries delays] by simp
  qed
next
  assume "(err_status e = Some 500 \<or> err_status e = Some 503) \<and> err_message e = None"
  then show "isServerIssue e" "\<not> isRateLimit e" "\<not> isNotFound e"
    by (auto simp: isServerIssue_def isRateLimit_def isNotFound_def message_includes_def)
next
  assume "err_status e = Some 429 \<and> err_message e = None"
  then show "isRateLimit e" "\<not> isNotFound e"
    by (auto simp: isRateLimit_def isNotFound_def message_includes_def)
next
  assume "err_status e = Some 404"
  then show "isNotFound e" by (simp add: isNotFound_def)
qed

lemmas error_examples = overload_error_def rate_limit_error_def not_found_error_def
  bad_gateway_error_def fails_twice_def always_fails_def isNotFound_def isRateLimit_def
  isServerIssue_def message_includes_def

theorem runWithRetry_policy_witness:
  "isServerIssue overload_error \<and> \<not> isRateLimit overload_error \<and> \<not> isNotFound overload_error
   \<and> runWithRetry (fails_twice overload_error) default_retries =
       \<lparr>rr_result = Inr (Parses (JObject empty_object)), rr_attempts = 3,
        rr_delays = [2000, 4000]\<rparr>
   \<and> isRateLimit rate_limit_error \<and> \<not> isNotFound rate_limit_error
   \<and> runWithRetry (fails_twice rate_limit_error) default_retries =
       \<lparr>rr_result = Inr (Parses (JObject empty_object)), rr_attempts = 3,
        rr_delays = [3000, 6000]\<rparr>
   \<and> isNotFound not_found_error
   \<and> runWithRetry_loop (always_fails not_found_error) 3 0 [] =
       \<lparr>rr_result = Inl (ApiFailure not_found_error), rr_attempts = 1, rr_delays = []\<rparr>
   \<and> err_status \<lparr>err_status = Some 503, err_message = None\<rparr> = Some 503
   \<and> isServerIssue \<lparr>err_status = Some 503, err_message = None\<rparr>
   \<and> err_status \<lparr>err_status = Some 429, err_message = None\<rparr> = Some 429
   \<and> isRateLimit \<lparr>err_status = Some 429, err_message = None\<rparr>
   \<and> err_status not_found_error = Some 404"
  using runWithRetry_policy[of "fails_twice overload_error" overload_error overload_error
      "Parses (JObject empty_object)" 0 3 overload_error "[]"]
    runWithRetry_policy[of "fails_twice rate_limit_error" rate_limit_error rate_limit_error
      "Parses (JObject empty_object)" 0 3 rate_limit_error "[]"]
    runWithRetry_policy[of "always_fails not_found_error" not_found_error not_found_error
      "Parses (JObject empty_object)" 0 3 not_found_error "[]"]
    runWithRetry_policy[of "always_fails not_found_error" not_found_error not_found_error
      "Parses (JObject empty_object)" 0 3 "\<lparr>err_status = Some 503, err_message = None\<rparr>" "[]"]
    runWithRetry_policy[of "always_fails not_found_error" not_found_error not_found_error
      "Parses (JObject empty_object)" 0 3 "\<lparr>err_status = Some 429, err_message = None\<rparr>" "[]"]
  by (simp add: error_examples)

text \<open>
  C6 as stated fails: a 502 is a server overload error in the specification's classes,
  yet a call that fails with it is invoked once and the error is rethrown with no wait,
  although the call would have succeeded in the third attempt.
\<close>

theorem runWithRetry_counterexample:
  "spec_class bad_gateway_error = ServerOverload
   \<and> fails_twice bad_gateway_error 2 = Resolves (Parses (JObject empty_object))
   \<and> runWithRetry (fails_twice bad_gateway_error) default_retries =
       \<lparr>rr_result = Inl (ApiFailure bad_gateway_error), rr_attempts = 1, rr_delays = []\<rparr>"
  by (simp add: spec_class_def error_examples runWithRetry_def default_retries_def
      runWithRetry_loop.simps)

lemma generateEntryFromChat_returns:
  "\<exists>v. generateEntryFromChat env newMessages contextMessages = Inr v"
  by (simp add: generateEntryFromChat_def split: sum.splits)

lemma handleAutoSync_try_cursor:
  "personalProcessedCount (snd (handleAutoSync_try env st)) = length (personalMessages st)"
  by (simp add: handleAutoSync_try_def Let_def split: sum.splits json_value.splits)

lemma handleAutoSync_cursor:
  "personalProcessedCount (handleAutoSync env st) =
     (if personalProcessedCount st < length (personalMessages st)
      then length (personalMessages st) else personalProcessedCount st)"
  by (simp add: handleAutoSync_def Let_def handleAutoSync_try_cursor)

lemma persist_pass_empty_object:
  "collectMedia newInput = [] \<Longrightarrow> persist_pass env empty_object newInput s = s"
  by (simp add: persist_pass_def newEntry_of_def shouldCreateEntry_def empty_object_def
      newEvents_of_def newTasks_of_def newTxs_of_def candidates_def Let_def)

text \<open>
  C5: \<open>generateEntryFromChat\<close> never throws, and when the primary and the fallback
  attempt both fail it returns the empty object. Whatever the \<open>try\<close> block of
  \<open>handleAutoSync\<close> ends with, an exception included, a pass that had new messages
  leaves the cursor at the length of the stream and the flag cleared; no exception
  leaves \<open>handleAutoSync\<close>. After a failed extraction on a slice without images
  the pass has changed nothing but the cursor.
\<close>

theorem extraction_failure_contained:
  "(\<exists>v. generateEntryFromChat env newMessages contextMessages = Inr v)
   \<and> (env_apiKey env \<noteq> None \<and> env_apiKey env \<noteq> Some []
        \<and> generate_and_parse (env_service env)
              (extraction_request env MODEL_NAME newMessages contextMessages) = Inl e1
        \<and> generate_and_parse (env_service env)
              (extraction_request env FALLBACK_MODEL newMessages contextMessages) = Inl e2 \<longrightarrow>
        generateEntryFromChat env newMessages contextMessages = Inr (JObject empty_object))
   \<and> (personalProcessedCount st < length (personalMessages st) \<longrightarrow>
        personalProcessedCount (snd (handleAutoSync_try env st)) = length (personalMessages st)
        \<and> personalProcessedCount (handleAutoSync env st) = length (personalMessages st)
        \<and> \<not> isAutoSaving (handleAutoSync env st))
   \<and> (personalProcessedCount st < length (personalMessages st)
        \<and> generate_and_parse (env_service env)
              (extraction_request env MODEL_NAME (newInput_slice st) (context_slice st)) = Inl e1
        \<and> generate_and_parse (env_service env)
              (extraction_request env FALLBACK_MODEL (newInput_slice st) (context_slice st)) = Inl e2
        \<and> collectMedia (newInput_slice st) = [] \<longrightarrow>
        handleAutoSync env st =
          st\<lparr>personalProcessedCount := length (personalMessages st), isAutoSaving := False\<rparr>)"
proof (intro conjI impI)
  show "\<exists>v. generateEntryFromChat env newMessages contextMessages = Inr v"
    by (rule generateEntryFromChat_returns)
next
  assume "env_apiKey env \<noteq> None \<and> env_apiKey env \<noteq> Some []
        \<and> generate_and_parse (env_service env)
              (extraction_request env MODEL_NAME newMessages contextMessages) = Inl e1
        \<and> generate_and_parse (env_service env)
              (extraction_request env FALLBACK_MODEL newMessages contextMessages) = Inl e2"
  then show "generateEntryFromChat env newMessages contextMessages = Inr (JObject empty_object)"
    by (simp add: generateEntryFromChat_def)
next
  assume "personalProcessedCount st < length (personalMessages st)"
  then show "personalProcessedCount (handleAutoSync env st) = length (personalMessages st)"
    by (simp add: handleAutoSync_cursor)
next
  show "personalProcessedCount (snd (handleAutoSync_try env st)) = length (personalMessages st)"
    by (rule handleAutoSync_try_cursor)
next
  assume "personalProcessedCount st < length (personalMessages st)"
  then show "\<not> isAutoSaving (handleAutoSync env st)"
    by (simp add: handleAutoSync_def Let_def)
next
  assume a: "personalProcessedCount st < length (personalMessages st)
        \<and> generate_and_parse (env_service env)
              (extraction_request env MODEL_NAME (newInput_slice st) (context_slice st)) = Inl e1
        \<and> generate_and_parse (env_service env)
              (extraction_request env FALLBACK_MODEL (newInput_slice st) (context_slice st)) = Inl e2
        \<and> collectMedia (newInput_slice st) = []"
  then have g: "generateEntryFromChat env (newInput_slice st) (context_slice st)
      = Inr (JObject empty_object)"
    by (simp add: generateEntryFromChat_def)
  have n: "newInput_slice (st\<lparr>isAutoSaving := True\<rparr>) = newInput_slice st"
    "context_slice (st\<lparr>isAutoSaving := True\<rparr>) = context_slice st"
    by (simp_all add: newInput_slice_def context_slice_def)
  from a g n have "handleAutoSync_try env (st\<lparr>isAutoSaving := True\<rparr>) =
      (None, st\<lparr>isAutoSaving := True, personalProcessedCount := length (personalMessages st)\<rparr>)"
    by (simp add: handleAutoSync_try_def Let_def persist_pass_empty_object)
  with a show "handleAutoSync env st =
          st\<lparr>personalProcessedCount := length (personalMessages st), isAutoSaving := False\<rparr>"
    by (simp add: handleAutoSync_def Let_def)
qed

lemma service_down_generate:
  "generate_and_parse service_down rq = Inl (ApiFailure overload_error)"
  by (simp add: generate_and_parse_def generate_def runWithRetry_def default_retries_def
      runWithRetry_loop.simps service_down_def error_examples)

theorem extraction_failure_contained_witness:
  "env_apiKey (example_env service_down) \<noteq> None
   \<and> env_apiKey (example_env service_down) \<noteq> Some []
   \<and> personalProcessedCount example_state < length (personalMessages example_state)
   \<and> generate_and_parse (env_service (example_env service_down))
        (extraction_request (example_env service_down) MODEL_NAME
           (newInput_slice example_state) (context_slice example_state))
       = Inl (ApiFailure overload_error)
   \<and> generate_and_parse (env_service (example_env service_down))
        (extraction_request (example_env service_down) FALLBACK_MODEL
           (newInput_slice example_state) (context_slice example_state))
       = Inl (ApiFailure overload_error)
   \<and> collectMedia (newInput_slice example_state) = []
   \<and> generateEntryFromChat (example_env service_down) (newInput_slice example_state)
        (context_slice example_state) = Inr (JObject empty_object)
   \<and> handleAutoSync (example_env service_down) example_state
       = example_state\<lparr>personalProcessedCount := 1, isAutoSaving := False\<rparr>"
proof -
  have svc: "env_service (example_env service_down) = service_down"
    "env_apiKey (example_env service_down) = Some ''key''"
    by (simp_all add: example_env_def)
  have m: "collectMedia (newInput_slice example_state) = []"
    "personalProcessedCount example_state < length (personalMessages example_state)"
    "length (personalMessages example_state) = 1"
    by (simp_all add: example_state_def example_message_def newInput_slice_def collectMedia_def)
  note t = extraction_failure_contained[of "example_env service_down"
      "newInput_slice example_state" "context_slice example_state"
      "ApiFailure overload_error" "ApiFailure overload_error" example_state]
  from t svc m show ?thesis
    by (simp add: service_down_generate)
qed

section \<open>The consolidation cursor\<close>

lemma handleAutoSync_messages: "personalMessages (handleAutoSync env st) = personalMessages st"
  by (simp add: handleAutoSync_def handleAutoSync_try_def Let_def
      split: sum.splits json_value.splits)

lemma drop_take_as_positions:
  assumes "b \<le> length xs"
  shows "drop a (take b xs) = map (\<lambda>i. xs ! i) [a ..< b]"
proof (rule nth_equalityI)
  show "length (drop a (take b xs)) = length (map (\<lambda>i. xs ! i) [a ..< b])"
    using assms by simp
next
  fix i assume "i < length (drop a (take b xs))"
  then have "i < b - a" using assms by simp
  then show "drop a (take b xs) ! i = map (\<lambda>i. xs ! i) [a ..< b] ! i"
    using assms by simp
qed

lemma slices_as_positions:
  "newInput_slice st =
     map (\<lambda>i. personalMessages st ! i) [personalProcessedCount st ..< length (personalMessages st)]"
  using drop_take_as_positions[of "length (personalMessages st)" "personalMessages st"
      "personalProcessedCount st"]
  by (simp add: newInput_slice_def)

text \<open>What a pass that has new messages does to the storage, by the outcome of its call.\<close>

lemma handleAutoSync_store:
  assumes "personalProcessedCount st < length (personalMessages st)"
  shows "store (handleAutoSync env st) =
     (case generateEntryFromChat env (newInput_slice st) (context_slice st) of
        Inl e \<Rightarrow> store st
      | Inr JNull \<Rightarrow> store st
      | Inr (JObject g) \<Rightarrow> persist_pass env g (newInput_slice st) (store st))"
proof -
  have n: "newInput_slice (st\<lparr>isAutoSaving := True\<rparr>) = newInput_slice st"
    "context_slice (st\<lparr>isAutoSaving := True\<rparr>) = context_slice st"
    by (simp_all add: newInput_slice_def context_slice_def)
  from assms show ?thesis
    by (simp add: handleAutoSync_def handleAutoSync_try_def Let_def n
        split: sum.splits json_value.splits)
qed

text \<open>
  C1: take a stream of length \<open>a\<close> whose cursor is within it, run a pass, let the stream
  become any list of length \<open>b \<ge> a\<close>, run a second pass. The first pass leaves the
  cursor at \<open>a\<close>. The second pass has the messages before position \<open>a\<close> as context and
  exactly the messages at the positions \<open>a, ..., b - 1\<close> as new input, and leaves the
  cursor at \<open>b\<close>. These slices are what the pass consumes: its extraction call is made on
  them, and when the call returns an object the storage afterwards is the result of
  materializing that object with that new input; when it returns \<open>null\<close> the storage is
  unchanged. The same holds of the first pass and the positions from its cursor up to
  \<open>a - 1\<close>, so the new input of the first pass ends where that of the second begins. When
  the stream has only grown by appended messages, the second new input is those
  messages.
\<close>

theorem no_double_processing:
  fixes st0 :: AppState and env1 env2 :: SyncEnv and msgs2 :: "ChatMessage list"
  defines "st1 \<equiv> handleAutoSync env1 st0"
  defines "st2 \<equiv> updateCurrentChatMessages st1 msgs2"
  defines "c \<equiv> personalProcessedCount st0"
  defines "a \<equiv> length (personalMessages st0)"
  defines "b \<equiv> length msgs2"
  defines "first_input \<equiv> map (\<lambda>i. personalMessages st0 ! i) [c ..< a]"
  defines "second_input \<equiv> map (\<lambda>i. msgs2 ! i) [a ..< b]"
  assumes inv: "c \<le> a" and ab: "a \<le> b"
  shows "personalProcessedCount st1 = a
    \<and> newInput_slice st0 = first_input
    \<and> newInput_slice st2 = second_input
    \<and> context_slice st2 = take a msgs2
    \<and> personalProcessedCount (handleAutoSync env2 st2) = b
    \<and> (c < a \<longrightarrow>
         (\<forall>g. generateEntryFromChat env1 first_input (take c (personalMessages st0))
                 = Inr (JObject g) \<longrightarrow>
               store st1 = persist_pass env1 g first_input (store st0)))
    \<and> (a < b \<longrightarrow>
         (\<forall>g. generateEntryFromChat env2 second_input (take a msgs2) = Inr (JObject g) \<longrightarrow>
               store (handleAutoSync env2 st2) = persist_pass env2 g second_input (store st2))
         \<and> (generateEntryFromChat env2 second_input (take a msgs2) = Inr JNull \<longrightarrow>
               store (handleAutoSync env2 st2) = store st2))
    \<and> (\<forall>more. msgs2 = personalMessages st0 @ more \<longrightarrow>
         second_input = more \<and> first_input = map (\<lambda>i. msgs2 ! i) [c ..< a])"
proof -
  have m1: "personalMessages st1 = personalMessages st0"
    by (simp add: st1_def handleAutoSync_messages)
  have m2: "personalMessages st2 = msgs2"
    by (simp add: st2_def updateCurrentChatMessages_def)
  have c1: "personalProcessedCount st1 = a"
    using inv by (auto simp: st1_def a_def c_def handleAutoSync_cursor)
  have c2: "personalProcessedCount st2 = a"
    using c1 by (simp add: st2_def updateCurrentChatMessages_def)
  have n0: "newInput_slice st0 = first_input"
    by (simp add: slices_as_positions first_input_def c_def a_def)
  have x0: "context_slice st0 = take c (personalMessages st0)"
    by (simp add: context_slice_def c_def)
  have n2: "newInput_slice st2 = second_input"
    by (simp add: slices_as_positions second_input_def c2 m2 b_def)
  have x2: "context_slice st2 = take a msgs2"
    by (simp add: context_slice_def c2 m2)
  have c3: "personalProcessedCount (handleAutoSync env2 st2) = b"
    using ab by (auto simp: handleAutoSync_cursor c2 m2 b_def)
  have s1: "store st1 = persist_pass env1 g first_input (store st0)"
    if "c < a" and "generateEntryFromChat env1 first_input (take c (personalMessages st0))
          = Inr (JObject g)" for g
    using that handleAutoSync_store[of st0 env1]
    by (simp add: st1_def n0 x0 c_def a_def)
  have s2: "store (handleAutoSync env2 st2) = persist_pass env2 g second_input (store st2)"
    if "a < b" and "generateEntryFromChat env2 second_input (take a msgs2) = Inr (JObject g)"
    for g
    using that handleAutoSync_store[of st2 env2] by (simp add: n2 x2 c2 m2 b_def)
  have s2': "store (handleAutoSync env2 st2) = store st2"
    if "a < b" and "generateEntryFromChat env2 second_input (take a msgs2) = Inr JNull"
    using that handleAutoSync_store[of st2 env2] by (simp add: n2 x2 c2 m2 b_def)
  have app: "second_input = more \<and> first_input = map (\<lambda>i. msgs2 ! i) [c ..< a]"
    if "msgs2 = personalMessages st0 @ more" for more
  proof
    have "second_input = drop a msgs2"
      using n2 by (simp add: newInput_slice_def c2 m2)
    with that show "second_input = more" by (simp add: a_def)
    show "first_input = map (\<lambda>i. msgs2 ! i) [c ..< a]"
      using that by (simp add: first_input_def a_def nth_append)
  qed
  from c1 n0 n2 x2 c3 s1 s2 s2' app show ?thesis
    by blast
qed

lemma generateEntryFromChat_answers:
  "generateEntryFromChat (example_env (answers g)) newMessages contextMessages = Inr (JObject g)"
  by (simp add: generateEntryFromChat_def generate_and_parse_def generate_def runWithRetry_def
      default_retries_def runWithRetry_loop.simps answers_def example_env_def)

theorem no_double_processing_witness:
  "personalProcessedCount example_state \<le> length (personalMessages example_state)
   \<and> length (personalMessages example_state)
       \<le> length [example_message, example_message\<lparr>msg_role := model\<rparr>, file_message]
   \<and> personalProcessedCount example_state < length (personalMessages example_state)
   \<and> length (personalMessages example_state)
       < length [example_message, example_message\<lparr>msg_role := model\<rparr>, file_message]
   \<and> generateEntryFromChat (example_env (answers task_only_result))
        [example_message\<lparr>msg_role := model\<rparr>, file_message] [example_message]
       = Inr (JObject task_only_result)
   \<and> personalProcessedCount (handleAutoSync (example_env (answers no_content_result))
         example_state) = 1
   \<and> store (handleAutoSync (example_env (answers no_content_result)) example_state)
       = persist_pass (example_env (answers no_content_result)) no_content_result
           [example_message] (store example_state)
   \<and> store (handleAutoSync (example_env (answers task_only_result))
         (updateCurrentChatMessages
            (handleAutoSync (example_env (answers no_content_result)) example_state)
            [example_message, example_message\<lparr>msg_role := model\<rparr>, file_message]))
       = persist_pass (example_env (answers task_only_result)) task_only_result
           [example_message\<lparr>msg_role := model\<rparr>, file_message]
           (store (updateCurrentChatMessages
              (handleAutoSync (example_env (answers no_content_result)) example_state)
              [example_message, example_message\<lparr>msg_role := model\<rparr>, file_message]))"
proof -
  let ?env1 = "example_env (answers no_content_result)"
  let ?env2 = "example_env (answers task_only_result)"
  let ?msgs2 = "[example_message, example_message\<lparr>msg_role := model\<rparr>, file_message]"
  have h: "personalProcessedCount example_state \<le> length (personalMessages example_state)"
    "length (personalMessages example_state) \<le> length ?msgs2"
    by (simp_all add: example_state_def)
  have v: "personalProcessedCount example_state = 0" "personalMessages example_state = [example_message]"
    by (simp_all add: example_state_def)
  have p: "map (\<lambda>i. personalMessages example_state ! i)
             [personalProcessedCount example_state ..< length (personalMessages example_state)]
           = [example_message]"
    "map (\<lambda>i. ?msgs2 ! i) [length (personalMessages example_state) ..< length ?msgs2]
           = [example_message\<lparr>msg_role := model\<rparr>, file_message]"
    "take (length (personalMessages example_state)) ?msgs2 = [example_message]"
    by (simp_all add: v upt_rec)
  note t = no_double_processing[OF h, of ?env1 ?env2, unfolded p]
  have g1: "generateEntryFromChat ?env1 [example_message]
      (take (personalProcessedCount example_state) (personalMessages example_state))
      = Inr (JObject no_content_result)"
    by (rule generateEntryFromChat_answers)
  have g2: "generateEntryFromChat ?env2 [example_message\<lparr>msg_role := model\<rparr>, file_message]
      [example_message] = Inr (JObject task_only_result)"
    by (rule generateEntryFromChat_answers)
  have lt: "personalProcessedCount example_state < length (personalMessages example_state)"
    "length (personalMessages example_state) < length ?msgs2"
    by (simp_all add: v)
  from t have c: "personalProcessedCount (handleAutoSync ?env1 example_state) = 1"
    by (simp add: v)
  from t lt g1 have s1: "store (handleAutoSync ?env1 example_state)
      = persist_pass ?env1 no_content_result [example_message] (store example_state)"
    by blast
  from t lt g2 have s2: "store (handleAutoSync ?env2
        (updateCurrentChatMessages (handleAutoSync ?env1 example_state) ?msgs2))
      = persist_pass ?env2 task_only_result [example_message\<lparr>msg_role := model\<rparr>, file_message]
          (store (updateCurrentChatMessages (handleAutoSync ?env1 example_state) ?msgs2))"
    by blast
  from h lt g2 c s1 s2 show ?thesis by simp
qed

subsection \<open>The cursor over a session\<close>

lemma step_cursor_monotone:
  "personalProcessedCount (appState ss) \<le> personalProcessedCount (appState (step ss ev))"
proof (cases ev)
  case (Send m)
  then show ?thesis by (simp add: handleSend_def updateCurrentChatMessages_def Let_def)
next
  case (Reply k m)
  then show ?thesis by (simp add: replyArrives_def updateCurrentChatMessages_def Let_def)
next
  case Remount
  then show ?thesis by (simp add: remount_def)
next
  case (Flush env)
  then show ?thesis by (simp add: handleAutoSync_cursor)
qed

text \<open>The cursor never decreases, whatever happens in the session.\<close>

lemma run_cursor_monotone:
  "personalProcessedCount (appState ss) \<le> personalProcessedCount (appState (run ss evs))"
  unfolding run_def
proof (induction evs arbitrary: ss)
  case Nil
  show ?case by simp
next
  case (Cons ev evs)
  have "personalProcessedCount (appState ss) \<le> personalProcessedCount (appState (step ss ev))"
    by (rule step_cursor_monotone)
  also have "\<dots> \<le> personalProcessedCount (appState (foldl step (step ss ev) evs))"
    by (rule Cons.IH)
  finally show ?case by simp
qed

lemma handleSend_settled: "settled ss \<Longrightarrow> settled (handleSend ss m)"
  by (cases "isTyping ss")
    (simp_all add: settled_def handleSend_def updateCurrentChatMessages_def Let_def)

lemma replyArrives_settled:
  assumes "settled ss"
  shows "settled (replyArrives ss k m)"
proof (cases "k < length (awaiting ss)")
  case False
  with assms show ?thesis by (simp add: replyArrives_def)
next
  case True
  with assms have t: "isTyping ss" "awaiting ss = [(personalMessages (appState ss), True)]"
    by (auto simp: settled_def split: if_splits)
  with True have k: "k = 0" by simp
  from assms have c: "personalProcessedCount (appState ss) \<le> length (personalMessages (appState ss))"
    by (simp add: settled_def)
  show ?thesis
    using c by (simp add: settled_def replyArrives_def t k updateCurrentChatMessages_def Let_def)
qed

lemma flush_settled:
  "settled ss \<Longrightarrow> settled (ss\<lparr>appState := handleAutoSync env (appState ss)\<rparr>)"
  by (simp add: settled_def handleAutoSync_cursor handleAutoSync_messages)

lemma step_settled:
  assumes "settled ss" and "ev \<noteq> Remount"
  shows "settled (step ss ev)"
  using assms by (cases ev) (simp_all add: handleSend_settled replyArrives_settled flush_settled)

text \<open>
  So the cursor stays within the stream as long as the user does not leave the chat tab
  and return to it.
\<close>

lemma cursor_bounded_while_mounted:
  assumes "Remount \<notin> set evs"
  shows "personalProcessedCount (appState (run (start_session s) evs))
           \<le> length (personalMessages (appState (run (start_session s) evs)))"
proof -
  have "settled ss \<Longrightarrow> Remount \<notin> set evs \<Longrightarrow> settled (foldl step ss evs)" for ss
    by (induction evs arbitrary: ss) (auto simp: step_settled)
  moreover have "settled (start_session s)"
    by (simp add: settled_def start_session_def mount_def Let_def)
  ultimately have "settled (run (start_session s) evs)"
    using assms by (simp add: run_def)
  then show ?thesis by (simp add: settled_def)
qed

text \<open>
  C9 at a failing sequence. The user sends a message and leaves the chat tab, which starts
  a pass (cursor 1), returns and sends a second message; the second reply arrives and the
  debounced pass runs (cursor 3); then the first reply arrives. That reply is written
  after the list the first send holds, which lacks the second message and its reply, so
  the stream shrinks from three messages to two while the cursor is at 3. A third message
  brings the stream to length 3 again; a pass then returns at once and the new input
  there is empty: the message is never consolidated.
\<close>

theorem cursor_beyond_stream:
  "personalProcessedCount (appState (run (start_session empty_storage)
       [Send first_question, Flush (example_env service_down), Remount,
        Send second_question, Reply 1 second_reply, Flush (example_env service_down),
        Reply 0 first_reply])) = 3
   \<and> personalMessages (appState (run (start_session empty_storage)
       [Send first_question, Flush (example_env service_down), Remount,
        Send second_question, Reply 1 second_reply, Flush (example_env service_down),
        Reply 0 first_reply]))
       = [first_question, first_reply]
   \<and> newInput_slice (appState (run (start_session empty_storage)
       [Send first_question, Flush (example_env service_down), Remount,
        Send second_question, Reply 1 second_reply, Flush (example_env service_down),
        Reply 0 first_reply, Send third_question])) = []
   \<and> (\<forall>env. handleAutoSync env (appState (run (start_session empty_storage)
       [Send first_question, Flush (example_env service_down), Remount,
        Send second_question, Reply 1 second_reply, Flush (example_env service_down),
        Reply 0 first_reply, Send third_question]))
       = appState (run (start_session empty_storage)
       [Send first_question, Flush (example_env service_down), Remount,
        Send second_question, Reply 1 second_reply, Flush (example_env service_down),
        Reply 0 first_reply, Send third_question]))"
proof -
  let ?evs = "[Send first_question, Flush (example_env service_down), Remount,
        Send second_question, Reply 1 second_reply, Flush (example_env service_down),
        Reply 0 first_reply]"
  let ?st = "appState (run (start_session empty_storage) ?evs)"
  let ?st' = "appState (run (start_session empty_storage) (?evs @ [Send third_question]))"
  have c: "personalProcessedCount ?st = 3"
    by (simp add: run_def start_session_def mount_def handleSend_def replyArrives_def
        remount_def updateCurrentChatMessages_def handleAutoSync_cursor
        handleAutoSync_messages getChatHistory_def read_cell_def empty_storage_def Let_def)
  have m: "personalMessages ?st = [first_question, first_reply]"
    by (simp add: run_def start_session_def mount_def handleSend_def replyArrives_def
        remount_def updateCurrentChatMessages_def handleAutoSync_cursor
        handleAutoSync_messages getChatHistory_def read_cell_def empty_storage_def Let_def)
  have t: "isTyping (run (start_session empty_storage) ?evs) = False"
    by (simp add: run_def start_session_def mount_def handleSend_def replyArrives_def
        remount_def Let_def)
  have s: "?st' = updateCurrentChatMessages ?st (personalMessages ?st @ [third_question])"
    using t by (simp add: run_def handleSend_def Let_def)
  have c': "personalProcessedCount ?st' = 3" and m': "length (personalMessages ?st') = 3"
    using c m unfolding s by (simp_all add: updateCurrentChatMessages_def)
  have n: "newInput_slice ?st' = []"
    using c' m' by (simp add: newInput_slice_def)
  have p: "handleAutoSync env ?st' = ?st'" for env
    using c' m' by (simp add: handleAutoSync_def)
  from c m n p show ?thesis by simp
qed

section \<open>Materialization of one pass\<close>

subsection \<open>Decimal numerals and derived ids\<close>

lemma digit_char_inj:
  assumes "a < 10" and "b < 10" and "digit_char a = digit_char b"
  shows "a = b"
proof -
  have d: "distinct ''0123456789''" by simp
  have "''0123456789'' ! a = ''0123456789'' ! b"
    using assms by (simp add: digit_char_def)
  with nth_eq_iff_index_eq[OF d, of a b] assms show ?thesis by simp
qed

lemma string_of_nat_nonempty: "string_of_nat n \<noteq> []"
  by (subst string_of_nat.simps) simp

lemma string_of_nat_inj: "string_of_nat m = string_of_nat n \<Longrightarrow> m = n"
proof (induction m arbitrary: n rule: string_of_nat.induct)
  case (1 m)
  show ?case
  proof (cases "m < 10")
    case small_m: True
    show ?thesis
    proof (cases "n < 10")
      case True
      with small_m "1.prems" have "digit_char m = digit_char n"
        by (simp add: string_of_nat.simps[of m] string_of_nat.simps[of n])
      with small_m True show ?thesis by (rule digit_char_inj)
    next
      case False
      with small_m "1.prems" have "string_of_nat (n div 10) = []"
        by (simp add: string_of_nat.simps[of m] string_of_nat.simps[of n])
      then show ?thesis by (simp add: string_of_nat_nonempty)
    qed
  next
    case big_m: False
    show ?thesis
    proof (cases "n < 10")
      case True
      with big_m "1.prems" have "string_of_nat (m div 10) = []"
        by (simp add: string_of_nat.simps[of m] string_of_nat.simps[of n])
      then show ?thesis by (simp add: string_of_nat_nonempty)
    next
      case False
      with big_m "1.prems" have eq: "string_of_nat (m div 10) = string_of_nat (n div 10)"
        and dg: "digit_char (m mod 10) = digit_char (n mod 10)"
        by (simp_all add: string_of_nat.simps[of m] string_of_nat.simps[of n])
      from "1.IH"[OF big_m eq] have q: "m div 10 = n div 10" .
      have r: "m mod 10 = n mod 10"
        by (rule digit_char_inj[OF _ _ dg]) simp_all
      from q r show ?thesis
        by (metis div_mult_mod_eq)
    qed
  qed
qed

lemma string_of_nat_eq_iff: "string_of_nat m = string_of_nat n \<longleftrightarrow> m = n"
  by (auto dest: string_of_nat_inj)

lemma enumerate_ids_distinct:
  "distinct (map (\<lambda>p. pre @ string_of_nat (fst p)) (enumerate 0 xs))"
proof -
  have "map (\<lambda>p. pre @ string_of_nat (fst p)) (enumerate 0 xs)
          = map ((\<lambda>i. pre @ string_of_nat i) \<circ> fst) (enumerate 0 xs)"
    by (simp only: comp_def)
  also have "\<dots> = map (\<lambda>i. pre @ string_of_nat i) (map fst (enumerate 0 xs))"
    by (simp only: map_map)
  also have "\<dots> = map (\<lambda>i. pre @ string_of_nat i) [0 ..< 0 + length xs]"
    by (simp only: map_fst_enumerate)
  finally show ?thesis
    by (simp add: distinct_map inj_on_def string_of_nat_inj)
qed

lemma newTasks_ids_distinct: "distinct (map task_id (newTasks_of env g B should))"
  using enumerate_ids_distinct[of "B @ ''-task-''" "candidates (g_tasks g)"]
  by (simp add: newTasks_of_def case_prod_beta comp_def)

text \<open>
  Every derived id is the batch id, the kind and the index; the link is the batch id
  exactly when \<open>shouldCreateEntry\<close> holds.
\<close>

lemma materialized_ids:
  "(\<forall>t \<in> set (newTasks_of env g B should).
      (\<exists>i. task_id t = B @ ''-task-'' @ string_of_nat i)
      \<and> task_linkedEntryId t = (if should then Some B else None))
   \<and> (\<forall>ev \<in> set (newEvents_of g B should).
      (\<exists>i. evt_id ev = B @ ''-evt-'' @ string_of_nat i)
      \<and> evt_linkedEntryId ev = (if should then Some B else None))
   \<and> (\<forall>x \<in> set (newTxs_of env g B should).
      (\<exists>i. tx_id x = B @ ''-tx-'' @ string_of_nat i)
      \<and> tx_linkedEntryId x = (if should then Some B else None))"
  by (auto simp: newTasks_of_def newEvents_of_def newTxs_of_def link_of_def)

subsection \<open>What a pass leaves in each collection\<close>

lemma saveTasks_step_has: "t \<in> set (saveTasks_step xs t)"
proof (cases "findIndex (\<lambda>existing. task_id existing = task_id t) xs")
  case None
  then show ?thesis by (simp add: saveTasks_step_def)
next
  case (Some i)
  from findIndex_SomeD[OF Some] have "i < length xs" by simp
  with Some show ?thesis by (simp add: saveTasks_step_def set_update_memI)
qed

lemma saveTasks_step_keeps:
  assumes "x \<in> set xs" and "task_id x \<noteq> task_id t"
  shows "x \<in> set (saveTasks_step xs t)"
proof (cases "findIndex (\<lambda>existing. task_id existing = task_id t) xs")
  case None
  with assms show ?thesis by (simp add: saveTasks_step_def)
next
  case (Some i)
  from findIndex_SomeD[OF Some] have i: "i < length xs" "task_id (xs ! i) = task_id t" by auto
  from assms(1) obtain j where j: "j < length xs" "xs ! j = x"
    by (auto simp: in_set_conv_nth)
  with i assms(2) have "j \<noteq> i" by auto
  with j have "xs[i := t] ! j = x" "j < length (xs[i := t])" by simp_all
  then have "x \<in> set (xs[i := t])" by (metis nth_mem)
  with Some show ?thesis by (simp add: saveTasks_step_def)
qed

lemma foldl_saveTasks_keeps:
  "x \<in> set xs \<Longrightarrow> task_id x \<notin> task_id ` set ts \<Longrightarrow> x \<in> set (foldl saveTasks_step xs ts)"
  by (induction ts arbitrary: xs) (auto simp: saveTasks_step_keeps)

lemma foldl_saveTasks_has_all:
  "distinct (map task_id ts) \<Longrightarrow> set ts \<subseteq> set (foldl saveTasks_step xs ts)"
proof (induction ts arbitrary: xs)
  case Nil
  show ?case by simp
next
  case (Cons t ts)
  have "t \<in> set (foldl saveTasks_step (saveTasks_step xs t) ts)"
    using Cons.prems by (intro foldl_saveTasks_keeps saveTasks_step_has) auto
  moreover have "set ts \<subseteq> set (foldl saveTasks_step (saveTasks_step xs t) ts)"
    using Cons.prems by (intro Cons.IH) simp
  ultimately show ?case by simp
qed

lemma saved_entry_member: "e \<in> set (getEntries (saveEntry s e))"
proof (cases "findIndex (\<lambda>x. e_id x = e_id e) (getEntries s)")
  case None
  then show ?thesis by (simp add: getEntries_saveEntry)
next
  case (Some i)
  from findIndex_SomeD[OF Some] have "i < length (getEntries s)" by simp
  with Some show ?thesis by (simp add: getEntries_saveEntry set_update_memI)
qed

lemma frame_addCalendarEvents:
  "getEntries (addCalendarEvents s x) = getEntries s"
  "getTasks (addCalendarEvents s x) = getTasks s"
  "getTransactions (addCalendarEvents s x) = getTransactions s"
  by (simp_all add: addCalendarEvents_def Let_def getters)

lemma frame_saveTasks:
  "getEntries (saveTasks s x) = getEntries s"
  "getCalendarEvents (saveTasks s x) = getCalendarEvents s"
  "getTransactions (saveTasks s x) = getTransactions s"
  by (simp_all add: saveTasks_def getters)

lemma frame_addTransactions:
  "getEntries (addTransactions s x) = getEntries s"
  "getCalendarEvents (addTransactions s x) = getCalendarEvents s"
  "getTasks (addTransactions s x) = getTasks s"
  by (simp_all add: addTransactions_def getters)

lemma frame_saveEntry:
  "getCalendarEvents (saveEntry s x) = getCalendarEvents s"
  "getTasks (saveEntry s x) = getTasks s"
  "getTransactions (saveEntry s x) = getTransactions s"
  by (simp_all add: saveEntry_def Let_def getters)

lemmas frames = frame_addCalendarEvents frame_saveTasks frame_addTransactions frame_saveEntry

lemma getTasks_persist_pass:
  "getTasks (persist_pass env g newInput s) =
     foldl saveTasks_step (getTasks s)
       (newTasks_of env g (string_of_nat (env_now env))
          (shouldCreateEntry g (collectMedia newInput)))"
  by (simp add: persist_pass_def Let_def frames getTasks_saveTasks split: option.splits)

lemma getTransactions_persist_pass:
  "getTransactions (persist_pass env g newInput s) =
     getTransactions s @
       newTxs_of env g (string_of_nat (env_now env)) (shouldCreateEntry g (collectMedia newInput))"
  by (simp add: persist_pass_def Let_def frames getTransactions_addTransactions
      split: option.splits)

lemma getCalendarEvents_persist_pass:
  "getCalendarEvents (persist_pass env g newInput s) =
     getCalendarEvents s @
       filter (\<lambda>ev. evt_id ev \<notin> evt_id ` set (getCalendarEvents s))
         (newEvents_of g (string_of_nat (env_now env))
            (shouldCreateEntry g (collectMedia newInput)))"
  by (simp add: persist_pass_def Let_def frames getCalendarEvents_addCalendarEvents
      split: option.splits)

lemma getEntries_persist_pass:
  "getEntries (persist_pass env g newInput s) =
     (case newEntry_of env g newInput of
        None \<Rightarrow> getEntries s
      | Some e \<Rightarrow> getEntries (saveEntry s e))"
  by (simp add: persist_pass_def Let_def frames getEntries_saveEntry split: option.splits)


subsection \<open>The materialized records, one per candidate\<close>

lemma candidates_Some: "candidates (Some cs) = cs"
  by (cases cs) (simp_all add: candidates_def)

lemma nth_map_enumerate:
  "i < length xs \<Longrightarrow> map (\<lambda>(k, x). f k x) (enumerate 0 xs) ! i = f i (xs ! i)"
  by (simp add: nth_enumerate_eq)

lemma newTasks_of_Some:
  assumes "g_tasks g = Some cs"
  shows "length (newTasks_of env g B should) = length cs"
    and "i < length cs \<Longrightarrow> newTasks_of env g B should ! i =
           \<lparr>task_id = B @ ''-task-'' @ string_of_nat i, task_title = tc_title (cs ! i),
            task_completed = False,
            task_dueDate = Some (or_else (tc_dueDate (cs ! i)) (env_isoNow env)),
            task_linkedEntryId = link_of should B\<rparr>"
  using assms by (simp_all add: newTasks_of_def candidates_Some nth_enumerate_eq)

lemma newTxs_of_Some:
  assumes "g_transactions g = Some cs"
  shows "length (newTxs_of env g B should) = length cs"
    and "i < length cs \<Longrightarrow> newTxs_of env g B should ! i =
           \<lparr>tx_id = B @ ''-tx-'' @ string_of_nat i, tx_amount = xc_amount (cs ! i),
            tx_type = xc_type (cs ! i), tx_category = xc_category (cs ! i),
            tx_description = xc_description (cs ! i),
            tx_date = or_else (xc_date (cs ! i)) (env_isoNow env),
            tx_linkedEntryId = link_of should B\<rparr>"
  using assms by (simp_all add: newTxs_of_def candidates_Some nth_enumerate_eq)

lemma newEvents_of_Some:
  assumes "g_calendarEvents g = Some cs"
  shows "length (newEvents_of g B should) = length cs"
    and "i < length cs \<Longrightarrow> newEvents_of g B should ! i =
           \<lparr>evt_id = B @ ''-evt-'' @ string_of_nat i, evt_title = ec_title (cs ! i),
            evt_startTime = ec_startTime (cs ! i), evt_endTime = ec_endTime (cs ! i),
            evt_description = ec_description (cs ! i),
            evt_linkedEntryId = link_of should B\<rparr>"
  using assms by (simp_all add: newEvents_of_def candidates_Some nth_enumerate_eq)

text \<open>Every materialized task and transaction is stored; an event is, if its id is new.\<close>

lemma tasks_stored:
  "set (newTasks_of env g (string_of_nat (env_now env))
          (shouldCreateEntry g (collectMedia newInput)))
     \<subseteq> set (getTasks (persist_pass env g newInput s))"
  unfolding getTasks_persist_pass
  by (rule foldl_saveTasks_has_all) (rule newTasks_ids_distinct)

lemma txs_stored:
  "set (newTxs_of env g (string_of_nat (env_now env))
          (shouldCreateEntry g (collectMedia newInput)))
     \<subseteq> set (getTransactions (persist_pass env g newInput s))"
  by (simp add: getTransactions_persist_pass)

lemma event_stored:
  assumes "ev \<in> set (newEvents_of g (string_of_nat (env_now env))
                       (shouldCreateEntry g (collectMedia newInput)))"
    and "evt_id ev \<notin> evt_id ` set (getCalendarEvents s)"
  shows "ev \<in> set (getCalendarEvents (persist_pass env g newInput s))"
  using assms by (simp add: getCalendarEvents_persist_pass)

subsection \<open>The text left of a message that is only an attachment marker\<close>

lemma strip_from_all: "length cs \<le> k \<Longrightarrow> strip_from k cs = []"
proof (induction cs arbitrary: k)
  case Nil
  show ?case by simp
next
  case (Cons c cs)
  then obtain k' where "k = Suc k'" by (cases k) auto
  with Cons show ?case by simp
qed

lemma lazy_until_close_first:
  assumes "CHR '']'' \<notin> set xs" and "\<forall>c \<in> set xs. \<not> is_line_terminator c"
  shows "lazy_until_close (xs @ CHR '']'' # rest) = Some (Suc (length xs))"
  using assms by (induction xs) auto

lemma marker_stripped:
  assumes "CHR '']'' \<notin> set name" and "CHR 0x0A \<notin> set name" and "CHR 0x0D \<notin> set name"
  shows "strip_attachments (CHR 0x0A # ''[Attachment: '' @ name @ '']'') = [CHR 0x0A]"
proof -
  have nl: "attachment_match (CHR 0x0A # xs) = None" for xs
    by (simp add: attachment_match_def attachment_tag_def)
  have "lazy_until_close ((CHR '' '' # name) @ CHR '']'' # []) = Some (Suc (length (CHR '' '' # name)))"
    by (rule lazy_until_close_first) (use assms in \<open>auto simp: is_line_terminator_def\<close>)
  then have m: "attachment_match (''[Attachment: '' @ name @ '']'') = Some (14 + length name)"
    by (simp add: attachment_match_def attachment_tag_def)
  have "strip_from 0 (''[Attachment: '' @ name @ '']'') = []"
    using m by (simp add: strip_from_all)
  then show ?thesis
    using nl by (simp add: strip_attachments_def)
qed

lemma marker_only_text:
  assumes "msg_role m = user" and "msg_text m = CHR 0x0A # ''[Attachment: '' @ name @ '']''"
    and "CHR '']'' \<notin> set name" and "CHR 0x0A \<notin> set name" and "CHR 0x0D \<notin> set name"
  shows "rawUserText [m] = []"
  using assms marker_stripped[of name]
  by (simp add: rawUserText_def trim_def is_white_space_def)

lemma collectMedia_empty_iff:
  "collectMedia newInput = [] \<longleftrightarrow>
     (\<forall>m \<in> set newInput. \<forall>a. msg_attachment m = Some a \<longrightarrow> att_type a \<noteq> image_attachment)"
  by (induction newInput) (auto simp: collectMedia_def split: option.splits)

subsection \<open>When an entry is created\<close>

lemma newEntry_of_iff:
  "newEntry_of env g newInput \<noteq> None \<longleftrightarrow>
     shouldCreateEntry g (collectMedia newInput)
     \<and> (or_else (finalContent_of g (rawUserText newInput)) [] \<noteq> [] \<or> collectMedia newInput \<noteq> [])"
  by (simp add: newEntry_of_def Let_def)

lemma newEntry_of_SomeD:
  "newEntry_of env g newInput = Some e \<Longrightarrow>
     e_id e = string_of_nat (env_now env)
     \<and> e_content e = or_else (finalContent_of g (rawUserText newInput)) []
     \<and> e_media e = Some (collectMedia newInput)"
  by (auto simp: newEntry_of_def Let_def split: if_splits)

text \<open>
  C2, as the code has it. The pass hands an entry to \<open>saveEntry\<close> exactly when
  \<open>hasContent\<close> is \<open>true\<close> or the new input carries an image, and the final content
  is not empty or an image is present. That entry is then in the stored entries, with the
  batch id, the final content and the collected media; otherwise the stored entries are
  unchanged. Take a result whose \<open>hasContent\<close> is not \<open>true\<close> and whose content is
  missing or empty, and as new input one message of the user that carries an image and
  whose text is what \<open>handleSend\<close> builds when nothing was typed, a line break and the
  marker with the file name: if the file name holds no closing bracket and no line break,
  the entry has empty content and exactly that image as its one media item. With
  \<open>hasContent\<close> not \<open>true\<close> and no image in the new input there is no entry. Whether
  or not an entry is created, every task candidate and every transaction candidate is
  materialized, with the id made of the batch id and its index, and is in its stored
  collection afterwards; every event candidate is materialized likewise and is among the
  stored events unless an event with its id was stored before.
\<close>

theorem entry_creation_gate:
  fixes env :: SyncEnv and g :: GeneratedData and newInput :: "ChatMessage list" and s :: storage
  defines "media \<equiv> collectMedia newInput"
  defines "B \<equiv> string_of_nat (env_now env)"
  defines "link \<equiv> (if g_hasContent g = Some True \<or> media \<noteq> [] then Some B else None)"
  defines "finalContent \<equiv> or_else (finalContent_of g (rawUserText newInput)) []"
  defines "s' \<equiv> persist_pass env g newInput s"
  shows "(newEntry_of env g newInput \<noteq> None \<longleftrightarrow>
            (g_hasContent g = Some True \<or> media \<noteq> []) \<and> (finalContent \<noteq> [] \<or> media \<noteq> []))
    \<and> (\<forall>e. newEntry_of env g newInput = Some e \<longrightarrow>
          e \<in> set (getEntries s') \<and> e_id e = B \<and> e_content e = finalContent
          \<and> e_media e = Some media)
    \<and> (newEntry_of env g newInput = None \<longrightarrow> getEntries s' = getEntries s)
    \<and> (g_hasContent g \<noteq> Some True \<and> (g_content g = None \<or> g_content g = Some [])
          \<and> newInput = [m] \<and> msg_role m = user
          \<and> msg_text m = CHR 0x0A # ''[Attachment: '' @ name @ '']''
          \<and> CHR '']'' \<notin> set name \<and> CHR 0x0A \<notin> set name \<and> CHR 0x0D \<notin> set name
          \<and> msg_attachment m = Some a \<and> att_type a = image_attachment \<longrightarrow>
          (\<exists>e. newEntry_of env g newInput = Some e \<and> e \<in> set (getEntries s')
               \<and> e_content e = []
               \<and> e_media e = Some [\<lparr>media_content = att_content a,
                                     media_mimeType = (case att_mimeType a of
                                        None \<Rightarrow> ''image/jpeg''
                                      | Some t \<Rightarrow> if t = [] then ''image/jpeg'' else t)\<rparr>]))
    \<and> (g_hasContent g \<noteq> Some True
          \<and> (\<forall>x \<in> set newInput. \<forall>y. msg_attachment x = Some y \<longrightarrow> att_type y \<noteq> image_attachment)
          \<longrightarrow> newEntry_of env g newInput = None \<and> getEntries s' = getEntries s)
    \<and> (\<forall>cs i. g_tasks g = Some cs \<and> i < length cs \<longrightarrow>
          \<lparr>task_id = B @ ''-task-'' @ string_of_nat i, task_title = tc_title (cs ! i),
           task_completed = False,
           task_dueDate = Some (or_else (tc_dueDate (cs ! i)) (env_isoNow env)),
           task_linkedEntryId = link\<rparr> \<in> set (getTasks s'))
    \<and> (\<forall>cs i. g_transactions g = Some cs \<and> i < length cs \<longrightarrow>
          \<lparr>tx_id = B @ ''-tx-'' @ string_of_nat i, tx_amount = xc_amount (cs ! i),
           tx_type = xc_type (cs ! i), tx_category = xc_category (cs ! i),
           tx_description = xc_description (cs ! i),
           tx_date = or_else (xc_date (cs ! i)) (env_isoNow env),
           tx_linkedEntryId = link\<rparr> \<in> set (getTransactions s'))
    \<and> (\<forall>cs i. g_calendarEvents g = Some cs \<and> i < length cs
          \<and> B @ ''-evt-'' @ string_of_nat i \<notin> evt_id ` set (getCalendarEvents s) \<longrightarrow>
          \<lparr>evt_id = B @ ''-evt-'' @ string_of_nat i, evt_title = ec_title (cs ! i),
           evt_startTime = ec_startTime (cs ! i), evt_endTime = ec_endTime (cs ! i),
           evt_description = ec_description (cs ! i),
           evt_linkedEntryId = link\<rparr> \<in> set (getCalendarEvents s'))"
proof -
  have lk: "link = link_of (shouldCreateEntry g (collectMedia newInput)) B"
    by (simp add: link_def link_of_def shouldCreateEntry_def media_def)
  have gate: "newEntry_of env g newInput \<noteq> None \<longleftrightarrow>
      (g_hasContent g = Some True \<or> media \<noteq> []) \<and> (finalContent \<noteq> [] \<or> media \<noteq> [])"
    using newEntry_of_iff[of env g newInput]
    by (simp add: shouldCreateEntry_def media_def finalContent_def)
  have saved: "e \<in> set (getEntries s') \<and> e_id e = B \<and> e_content e = finalContent
      \<and> e_media e = Some media" if "newEntry_of env g newInput = Some e" for e
    using that newEntry_of_SomeD[OF that]
    by (simp add: s'_def getEntries_persist_pass saved_entry_member B_def finalContent_def
        media_def)
  have unsaved: "getEntries s' = getEntries s" if "newEntry_of env g newInput = None"
    using that by (simp add: s'_def getEntries_persist_pass)
  have media_only: "\<exists>e. newEntry_of env g newInput = Some e \<and> e \<in> set (getEntries s')
      \<and> e_content e = []
      \<and> e_media e = Some [\<lparr>media_content = att_content a,
                            media_mimeType = (case att_mimeType a of
                               None \<Rightarrow> ''image/jpeg''
                             | Some t \<Rightarrow> if t = [] then ''image/jpeg'' else t)\<rparr>]"
    if h: "g_hasContent g \<noteq> Some True \<and> (g_content g = None \<or> g_content g = Some [])
          \<and> newInput = [m] \<and> msg_role m = user
          \<and> msg_text m = CHR 0x0A # ''[Attachment: '' @ name @ '']''
          \<and> CHR '']'' \<notin> set name \<and> CHR 0x0A \<notin> set name \<and> CHR 0x0D \<notin> set name
          \<and> msg_attachment m = Some a \<and> att_type a = image_attachment"
  proof -
    from h have md: "media = [\<lparr>media_content = att_content a,
        media_mimeType = (case att_mimeType a of
           None \<Rightarrow> ''image/jpeg'' | Some t \<Rightarrow> if t = [] then ''image/jpeg'' else t)\<rparr>]"
      by (simp add: media_def collectMedia_def or_else_def)
    from h have raw: "rawUserText newInput = []"
      using marker_only_text[of m name] by simp
    from h raw have fc: "finalContent = []"
      by (auto simp: finalContent_def finalContent_of_def or_else_def)
    from md gate obtain e where e: "newEntry_of env g newInput = Some e" by auto
    from saved[OF e] e fc md show ?thesis by simp
  qed
  have none: "newEntry_of env g newInput = None \<and> getEntries s' = getEntries s"
    if "g_hasContent g \<noteq> Some True
        \<and> (\<forall>x \<in> set newInput. \<forall>y. msg_attachment x = Some y \<longrightarrow> att_type y \<noteq> image_attachment)"
  proof -
    from that have "media = []"
      by (simp add: media_def collectMedia_empty_iff)
    with that gate unsaved show ?thesis by auto
  qed
  have tasks: "\<lparr>task_id = B @ ''-task-'' @ string_of_nat i, task_title = tc_title (cs ! i),
           task_completed = False,
           task_dueDate = Some (or_else (tc_dueDate (cs ! i)) (env_isoNow env)),
           task_linkedEntryId = link\<rparr> \<in> set (getTasks s')"
    if "g_tasks g = Some cs \<and> i < length cs" for cs i
  proof -
    let ?ts = "newTasks_of env g B (shouldCreateEntry g (collectMedia newInput))"
    from that have "i < length ?ts" by (simp add: newTasks_of_Some)
    then have "?ts ! i \<in> set ?ts" by (rule nth_mem)
    with tasks_stored[of env g newInput s] have "?ts ! i \<in> set (getTasks s')"
      by (auto simp: s'_def B_def)
    with that show ?thesis by (simp add: newTasks_of_Some lk)
  qed
  have txs: "\<lparr>tx_id = B @ ''-tx-'' @ string_of_nat i, tx_amount = xc_amount (cs ! i),
           tx_type = xc_type (cs ! i), tx_category = xc_category (cs ! i),
           tx_description = xc_description (cs ! i),
           tx_date = or_else (xc_date (cs ! i)) (env_isoNow env),
           tx_linkedEntryId = link\<rparr> \<in> set (getTransactions s')"
    if "g_transactions g = Some cs \<and> i < length cs" for cs i
  proof -
    let ?xs = "newTxs_of env g B (shouldCreateEntry g (collectMedia newInput))"
    from that have "i < length ?xs" by (simp add: newTxs_of_Some)
    then have "?xs ! i \<in> set ?xs" by (rule nth_mem)
    with txs_stored[of env g newInput s] have "?xs ! i \<in> set (getTransactions s')"
      by (auto simp: s'_def B_def)
    with that show ?thesis by (simp add: newTxs_of_Some lk)
  qed
  have evs: "\<lparr>evt_id = B @ ''-evt-'' @ string_of_nat i, evt_title = ec_title (cs ! i),
           evt_startTime = ec_startTime (cs ! i), evt_endTime = ec_endTime (cs ! i),
           evt_description = ec_description (cs ! i),
           evt_linkedEntryId = link\<rparr> \<in> set (getCalendarEvents s')"
    if "g_calendarEvents g = Some cs \<and> i < length cs
          \<and> B @ ''-evt-'' @ string_of_nat i \<notin> evt_id ` set (getCalendarEvents s)" for cs i
  proof -
    let ?es = "newEvents_of g B (shouldCreateEntry g (collectMedia newInput))"
    from that have "i < length ?es" by (simp add: newEvents_of_Some)
    then have "?es ! i \<in> set ?es" by (rule nth_mem)
    moreover from that have "evt_id (?es ! i) \<notin> evt_id ` set (getCalendarEvents s)"
      by (simp add: newEvents_of_Some)
    ultimately have "?es ! i \<in> set (getCalendarEvents s')"
      unfolding s'_def B_def by (rule event_stored)
    with that show ?thesis by (simp add: newEvents_of_Some lk)
  qed
  from gate saved unsaved media_only none tasks txs evs show ?thesis
    by blast
qed

lemmas text_evaluation = rawUserText_def strip_attachments_def attachment_match_def
  attachment_tag_def is_line_terminator_def trim_def is_white_space_def

lemma file_message_facts:
  "rawUserText [file_message] = []"
  "collectMedia [file_message] = []"
  by (simp_all add: file_message_def text_evaluation collectMedia_def)

theorem entry_creation_gate_witness:
  "g_hasContent no_content_result \<noteq> Some True
   \<and> (g_content no_content_result = None \<or> g_content no_content_result = Some [])
   \<and> msg_role photo_message = user
   \<and> msg_text photo_message = CHR 0x0A # ''[Attachment: '' @ ''bill.jpg'' @ '']''
   \<and> CHR '']'' \<notin> set ''bill.jpg'' \<and> CHR 0x0A \<notin> set ''bill.jpg'' \<and> CHR 0x0D \<notin> set ''bill.jpg''
   \<and> msg_attachment photo_message
       = Some \<lparr>att_type = image_attachment, att_content = ''/9j/4AAQ'',
               att_mimeType = Some ''image/jpeg'', att_name = Some ''bill.jpg''\<rparr>
   \<and> (\<exists>e. newEntry_of (example_env (answers no_content_result)) no_content_result
             [photo_message] = Some e
          \<and> e \<in> set (getEntries (persist_pass (example_env (answers no_content_result))
                                   no_content_result [photo_message] empty_storage))
          \<and> e_content e = []
          \<and> e_media e = Some [\<lparr>media_content = ''/9j/4AAQ'', media_mimeType = ''image/jpeg''\<rparr>])
   \<and> msg_attachment file_message
       = Some \<lparr>att_type = text_attachment, att_content = ''milk, eggs'',
               att_mimeType = None, att_name = Some ''notes.txt''\<rparr>
   \<and> newEntry_of (example_env (answers no_content_result)) no_content_result [file_message]
       = None
   \<and> g_tasks undated_result = Some [\<lparr>tc_title = ''Buy milk'', tc_dueDate = None\<rparr>]
   \<and> \<lparr>task_id = ''1711368002000-task-0'', task_title = ''Buy milk'', task_completed = False,
       task_dueDate = Some ''2024-03-25T12:00:02.000Z'', task_linkedEntryId = None\<rparr>
       \<in> set (getTasks (persist_pass (example_env (answers undated_result)) undated_result
                          [file_message] empty_storage))
   \<and> g_transactions undated_result
       = Some [\<lparr>xc_description = ''Lunch'', xc_amount = 50, xc_type = expense,
                xc_category = None, xc_date = None\<rparr>]
   \<and> \<lparr>tx_id = ''1711368002000-tx-0'', tx_amount = 50, tx_type = expense, tx_category = None,
       tx_description = ''Lunch'', tx_date = ''2024-03-25T12:00:02.000Z'',
       tx_linkedEntryId = None\<rparr>
       \<in> set (getTransactions (persist_pass (example_env (answers undated_result))
                                 undated_result [file_message] empty_storage))
   \<and> g_calendarEvents undated_result
       = Some [\<lparr>ec_title = ''Dentist'', ec_startTime = None, ec_endTime = None,
                ec_description = None\<rparr>]
   \<and> ''1711368002000-evt-0'' \<notin> evt_id ` set (getCalendarEvents empty_storage)
   \<and> \<lparr>evt_id = ''1711368002000-evt-0'', evt_title = ''Dentist'', evt_startTime = None,
       evt_endTime = None, evt_description = None, evt_linkedEntryId = None\<rparr>
       \<in> set (getCalendarEvents (persist_pass (example_env (answers undated_result))
                                   undated_result [file_message] empty_storage))"
proof -
  let ?env = "example_env (answers no_content_result)"
  let ?env' = "example_env (answers undated_result)"
  let ?a = "\<lparr>att_type = image_attachment, att_content = ''/9j/4AAQ'',
             att_mimeType = Some ''image/jpeg'', att_name = Some ''bill.jpg''\<rparr>"
  have h: "g_hasContent no_content_result \<noteq> Some True
      \<and> (g_content no_content_result = None \<or> g_content no_content_result = Some [])
      \<and> [photo_message] = [photo_message] \<and> msg_role photo_message = user
      \<and> msg_text photo_message = CHR 0x0A # ''[Attachment: '' @ ''bill.jpg'' @ '']''
      \<and> CHR '']'' \<notin> set ''bill.jpg'' \<and> CHR 0x0A \<notin> set ''bill.jpg'' \<and> CHR 0x0D \<notin> set ''bill.jpg''
      \<and> msg_attachment photo_message = Some ?a \<and> att_type ?a = image_attachment"
    by (simp add: no_content_result_def empty_object_def photo_message_def)
  have h': "g_hasContent no_content_result \<noteq> Some True
      \<and> (\<forall>x \<in> set [file_message]. \<forall>y. msg_attachment x = Some y \<longrightarrow> att_type y \<noteq> image_attachment)"
    by (auto simp: no_content_result_def empty_object_def file_message_def)
  have u: "g_tasks undated_result = Some [\<lparr>tc_title = ''Buy milk'', tc_dueDate = None\<rparr>]"
    "g_transactions undated_result
       = Some [\<lparr>xc_description = ''Lunch'', xc_amount = 50, xc_type = expense,
                xc_category = None, xc_date = None\<rparr>]"
    "g_calendarEvents undated_result
       = Some [\<lparr>ec_title = ''Dentist'', ec_startTime = None, ec_endTime = None,
                ec_description = None\<rparr>]"
    "g_hasContent undated_result = Some False"
    by (simp_all add: undated_result_def empty_object_def)
  have n: "string_of_nat (env_now ?env') = ''1711368002000''"
    "env_isoNow ?env' = ''2024-03-25T12:00:02.000Z''" "string_of_nat 0 = ''0''"
    by (simp_all add: example_env_def string_of_nat.simps digit_char_def)
  have f: "''1711368002000-evt-0'' \<notin> evt_id ` set (getCalendarEvents empty_storage)"
    by (simp add: getters empty_storage_def)
  note with_photo = entry_creation_gate[where env = ?env and g = no_content_result
      and newInput = "[photo_message]" and s = empty_storage and m = photo_message
      and name = "''bill.jpg''" and a = ?a]
  note with_file = entry_creation_gate[where env = ?env and g = no_content_result
      and newInput = "[file_message]" and s = empty_storage]
  note with_records = entry_creation_gate[where env = ?env' and g = undated_result
      and newInput = "[file_message]" and s = empty_storage]
  from with_photo h have p: "\<exists>e. newEntry_of ?env no_content_result [photo_message] = Some e
      \<and> e \<in> set (getEntries (persist_pass ?env no_content_result [photo_message] empty_storage))
      \<and> e_content e = []
      \<and> e_media e = Some [\<lparr>media_content = ''/9j/4AAQ'', media_mimeType = ''image/jpeg''\<rparr>]"
    by simp
  from with_file h' have q: "newEntry_of ?env no_content_result [file_message] = None"
    by blast
  from with_records have "\<forall>cs i. g_tasks undated_result = Some cs \<and> i < length cs \<longrightarrow>
      \<lparr>task_id = string_of_nat (env_now ?env') @ ''-task-'' @ string_of_nat i,
       task_title = tc_title (cs ! i), task_completed = False,
       task_dueDate = Some (or_else (tc_dueDate (cs ! i)) (env_isoNow ?env')),
       task_linkedEntryId = (if g_hasContent undated_result = Some True
                                \<or> collectMedia [file_message] \<noteq> []
                             then Some (string_of_nat (env_now ?env')) else None)\<rparr>
      \<in> set (getTasks (persist_pass ?env' undated_result [file_message] empty_storage))"
    by blast
  from this[rule_format, of "[\<lparr>tc_title = ''Buy milk'', tc_dueDate = None\<rparr>]" 0]
  have r1: "\<lparr>task_id = ''1711368002000-task-0'', task_title = ''Buy milk'', task_completed = False,
       task_dueDate = Some ''2024-03-25T12:00:02.000Z'', task_linkedEntryId = None\<rparr>
       \<in> set (getTasks (persist_pass ?env' undated_result [file_message] empty_storage))"
    by (simp add: u n file_message_facts or_else_def)
  from with_records have "\<forall>cs i. g_transactions undated_result = Some cs \<and> i < length cs \<longrightarrow>
      \<lparr>tx_id = string_of_nat (env_now ?env') @ ''-tx-'' @ string_of_nat i,
       tx_amount = xc_amount (cs ! i), tx_type = xc_type (cs ! i),
       tx_category = xc_category (cs ! i), tx_description = xc_description (cs ! i),
       tx_date = or_else (xc_date (cs ! i)) (env_isoNow ?env'),
       tx_linkedEntryId = (if g_hasContent undated_result = Some True
                              \<or> collectMedia [file_message] \<noteq> []
                           then Some (string_of_nat (env_now ?env')) else None)\<rparr>
      \<in> set (getTransactions (persist_pass ?env' undated_result [file_message] empty_storage))"
    by blast
  from this[rule_format, of "[\<lparr>xc_description = ''Lunch'', xc_amount = 50, xc_type = expense,
                xc_category = None, xc_date = None\<rparr>]" 0]
  have r2: "\<lparr>tx_id = ''1711368002000-tx-0'', tx_amount = 50, tx_type = expense, tx_category = None,
       tx_description = ''Lunch'', tx_date = ''2024-03-25T12:00:02.000Z'',
       tx_linkedEntryId = None\<rparr>
       \<in> set (getTransactions (persist_pass ?env' undated_result [file_message] empty_storage))"
    by (simp add: u n file_message_facts or_else_def)
  from with_records have "\<forall>cs i. g_calendarEvents undated_result = Some cs \<and> i < length cs
      \<and> string_of_nat (env_now ?env') @ ''-evt-'' @ string_of_nat i
          \<notin> evt_id ` set (getCalendarEvents empty_storage) \<longrightarrow>
      \<lparr>evt_id = string_of_nat (env_now ?env') @ ''-evt-'' @ string_of_nat i,
       evt_title = ec_title (cs ! i), evt_startTime = ec_startTime (cs ! i),
       evt_endTime = ec_endTime (cs ! i), evt_description = ec_description (cs ! i),
       evt_linkedEntryId = (if g_hasContent undated_result = Some True
                               \<or> collectMedia [file_message] \<noteq> []
                            then Some (string_of_nat (env_now ?env')) else None)\<rparr>
      \<in> set (getCalendarEvents (persist_pass ?env' undated_result [file_message] empty_storage))"
    by blast
  from this[rule_format, of "[\<lparr>ec_title = ''Dentist'', ec_startTime = None, ec_endTime = None,
                ec_description = None\<rparr>]" 0] f
  have r3: "\<lparr>evt_id = ''1711368002000-evt-0'', evt_title = ''Dentist'', evt_startTime = None,
       evt_endTime = None, evt_description = None, evt_linkedEntryId = None\<rparr>
       \<in> set (getCalendarEvents (persist_pass ?env' undated_result [file_message] empty_storage))"
    by (simp add: u n file_message_facts)
  have a: "msg_attachment file_message
       = Some \<lparr>att_type = text_attachment, att_content = ''milk, eggs'',
               att_mimeType = None, att_name = Some ''notes.txt''\<rparr>"
    by (simp add: file_message_def)
  from h a p q u f r1 r2 r3 show ?thesis by simp
qed

text \<open>
  C2 as stated fails in two places. A photo named \<open>IMG[1].jpg\<close>, sent with nothing
  typed to a model that answers \<open>hasContent\<close> false, yields an entry whose content is
  not empty but \<open>.jpg]\<close>, the part of the marker after its first closing bracket. And
  an extracted event is not persisted when an event with the id derived for it is stored
  already: the stored events are unchanged.
\<close>

theorem entry_creation_gate_counterexample:
  "map_option e_content
     (newEntry_of (example_env (answers no_content_result)) no_content_result
        [bracket_photo_message]) = Some ''.jpg]''
   \<and> getCalendarEvents
       (persist_pass (example_env (answers undated_result)) undated_result [example_message]
          (empty_storage\<lparr>CALENDAR_KEY := Stored [clashing_event]\<rparr>))
     = [clashing_event]"
proof -
  have raw: "rawUserText [bracket_photo_message] = ''.jpg]''"
    by (simp add: bracket_photo_message_def text_evaluation)
  have md: "collectMedia [bracket_photo_message] \<noteq> []"
    by (simp add: bracket_photo_message_def collectMedia_def)
  have a: "map_option e_content
     (newEntry_of (example_env (answers no_content_result)) no_content_result
        [bracket_photo_message]) = Some ''.jpg]''"
    using md by (simp add: newEntry_of_def Let_def raw shouldCreateEntry_def finalContent_of_def
        is_blank_def or_else_def no_content_result_def empty_object_def)
  have b: "getCalendarEvents
       (persist_pass (example_env (answers undated_result)) undated_result [example_message]
          (empty_storage\<lparr>CALENDAR_KEY := Stored [clashing_event]\<rparr>))
     = [clashing_event]"
    unfolding getCalendarEvents_persist_pass
    by (simp add: undated_result_def example_message_def collectMedia_def empty_storage_def
        getters shouldCreateEntry_def newEvents_of_def candidates_def link_of_def
        example_env_def empty_object_def string_of_nat.simps digit_char_def clashing_event_def
        example_event_def)
  from a b show ?thesis by simp
qed

subsection \<open>Candidates that lack a date\<close>

text \<open>
  C7, as the code has it: no candidate is dropped. Each list of materialized records is
  as long as the list of candidates, and each record carries the fields of its candidate.
  A task gets its candidate's \<open>dueDate\<close>, or the current time when that is missing or
  empty; a transaction gets its candidate's \<open>date\<close>, or the current time when that is
  missing or empty; an event keeps its candidate's \<open>startTime\<close> as it is, missing
  included. Every such task and transaction is stored by the pass, and every such event
  is stored unless an event with its id was stored before.
\<close>

theorem candidates_defaulted_not_dropped:
  fixes env :: SyncEnv and g :: GeneratedData and newInput :: "ChatMessage list" and s :: storage
  defines "B \<equiv> string_of_nat (env_now env)"
  defines "should \<equiv> shouldCreateEntry g (collectMedia newInput)"
  defines "s' \<equiv> persist_pass env g newInput s"
  shows "(\<forall>cs. g_tasks g = Some cs \<longrightarrow>
            length (newTasks_of env g B should) = length cs
            \<and> (\<forall>i < length cs.
                  task_title (newTasks_of env g B should ! i) = tc_title (cs ! i)
                  \<and> task_dueDate (newTasks_of env g B should ! i) =
                      Some (case tc_dueDate (cs ! i) of
                              None \<Rightarrow> env_isoNow env
                            | Some d \<Rightarrow> if d = [] then env_isoNow env else d)
                  \<and> newTasks_of env g B should ! i \<in> set (getTasks s')))
    \<and> (\<forall>cs. g_transactions g = Some cs \<longrightarrow>
            length (newTxs_of env g B should) = length cs
            \<and> (\<forall>i < length cs.
                  tx_description (newTxs_of env g B should ! i) = xc_description (cs ! i)
                  \<and> tx_amount (newTxs_of env g B should ! i) = xc_amount (cs ! i)
                  \<and> tx_date (newTxs_of env g B should ! i) =
                      (case xc_date (cs ! i) of
                         None \<Rightarrow> env_isoNow env
                       | Some d \<Rightarrow> if d = [] then env_isoNow env else d)
                  \<and> newTxs_of env g B should ! i \<in> set (getTransactions s')))
    \<and> (\<forall>cs. g_calendarEvents g = Some cs \<longrightarrow>
            length (newEvents_of g B should) = length cs
            \<and> (\<forall>i < length cs.
                  evt_title (newEvents_of g B should ! i) = ec_title (cs ! i)
                  \<and> evt_startTime (newEvents_of g B should ! i) = ec_startTime (cs ! i)
                  \<and> (evt_id (newEvents_of g B should ! i) \<notin> evt_id ` set (getCalendarEvents s)
                       \<longrightarrow> newEvents_of g B should ! i \<in> set (getCalendarEvents s'))))"
proof -
  have T: "length (newTasks_of env g B should) = length cs
      \<and> (\<forall>i < length cs.
            task_title (newTasks_of env g B should ! i) = tc_title (cs ! i)
            \<and> task_dueDate (newTasks_of env g B should ! i) =
                Some (case tc_dueDate (cs ! i) of
                        None \<Rightarrow> env_isoNow env
                      | Some d \<Rightarrow> if d = [] then env_isoNow env else d)
            \<and> newTasks_of env g B should ! i \<in> set (getTasks s'))"
    if c: "g_tasks g = Some cs" for cs
  proof (intro conjI allI impI)
    show "length (newTasks_of env g B should) = length cs"
      using c by (simp add: newTasks_of_Some)
  next
    fix i assume i: "i < length cs"
    with c show "task_title (newTasks_of env g B should ! i) = tc_title (cs ! i)"
      and "task_dueDate (newTasks_of env g B should ! i) =
                Some (case tc_dueDate (cs ! i) of
                        None \<Rightarrow> env_isoNow env
                      | Some d \<Rightarrow> if d = [] then env_isoNow env else d)"
      by (simp_all add: newTasks_of_Some or_else_def)
    from c i have "i < length (newTasks_of env g B should)"
      by (simp add: newTasks_of_Some(1))
    then have "newTasks_of env g B should ! i \<in> set (newTasks_of env g B should)"
      by (rule nth_mem)
    with tasks_stored[of env g newInput s]
    show "newTasks_of env g B should ! i \<in> set (getTasks s')"
      by (auto simp: s'_def B_def should_def)
  qed
  have X: "length (newTxs_of env g B should) = length cs
      \<and> (\<forall>i < length cs.
            tx_description (newTxs_of env g B should ! i) = xc_description (cs ! i)
            \<and> tx_amount (newTxs_of env g B should ! i) = xc_amount (cs ! i)
            \<and> tx_date (newTxs_of env g B should ! i) =
                (case xc_date (cs ! i) of
                   None \<Rightarrow> env_isoNow env
                 | Some d \<Rightarrow> if d = [] then env_isoNow env else d)
            \<and> newTxs_of env g B should ! i \<in> set (getTransactions s'))"
    if c: "g_transactions g = Some cs" for cs
  proof (intro conjI allI impI)
    show "length (newTxs_of env g B should) = length cs"
      using c by (simp add: newTxs_of_Some)
  next
    fix i assume i: "i < length cs"
    with c show "tx_description (newTxs_of env g B should ! i) = xc_description (cs ! i)"
      and "tx_amount (newTxs_of env g B should ! i) = xc_amount (cs ! i)"
      and "tx_date (newTxs_of env g B should ! i) =
                (case xc_date (cs ! i) of
                   None \<Rightarrow> env_isoNow env
                 | Some d \<Rightarrow> if d = [] then env_isoNow env else d)"
      by (simp_all add: newTxs_of_Some or_else_def)
    from c i have "i < length (newTxs_of env g B should)"
      by (simp add: newTxs_of_Some(1))
    then have "newTxs_of env g B should ! i \<in> set (newTxs_of env g B should)"
      by (rule nth_mem)
    with txs_stored[of env g newInput s]
    show "newTxs_of env g B should ! i \<in> set (getTransactions s')"
      by (auto simp: s'_def B_def should_def)
  qed
  have E: "length (newEvents_of g B should) = length cs
      \<and> (\<forall>i < length cs.
            evt_title (newEvents_of g B should ! i) = ec_title (cs ! i)
            \<and> evt_startTime (newEvents_of g B should ! i) = ec_startTime (cs ! i)
            \<and> (evt_id (newEvents_of g B should ! i) \<notin> evt_id ` set (getCalendarEvents s)
                 \<longrightarrow> newEvents_of g B should ! i \<in> set (getCalendarEvents s')))"
    if c: "g_calendarEvents g = Some cs" for cs
  proof (intro conjI allI impI)
    show "length (newEvents_of g B should) = length cs"
      using c by (simp add: newEvents_of_Some)
  next
    fix i assume i: "i < length cs"
    with c show "evt_title (newEvents_of g B should ! i) = ec_title (cs ! i)"
      and "evt_startTime (newEvents_of g B should ! i) = ec_startTime (cs ! i)"
      by (simp_all add: newEvents_of_Some)
    assume fresh: "evt_id (newEvents_of g B should ! i) \<notin> evt_id ` set (getCalendarEvents s)"
    from c i have "i < length (newEvents_of g B should)"
      by (simp add: newEvents_of_Some(1))
    then have "newEvents_of g B should ! i \<in> set (newEvents_of g B should)"
      by (rule nth_mem)
    then show "newEvents_of g B should ! i \<in> set (getCalendarEvents s')"
      using fresh unfolding s'_def B_def should_def by (rule event_stored)
  qed
  from T X E show ?thesis by blast
qed

theorem candidates_defaulted_not_dropped_witness:
  "g_tasks undated_result = Some [\<lparr>tc_title = ''Buy milk'', tc_dueDate = None\<rparr>]
   \<and> g_transactions undated_result
       = Some [\<lparr>xc_description = ''Lunch'', xc_amount = 50, xc_type = expense,
                xc_category = None, xc_date = None\<rparr>]
   \<and> g_calendarEvents undated_result
       = Some [\<lparr>ec_title = ''Dentist'', ec_startTime = None, ec_endTime = None,
                ec_description = None\<rparr>]
   \<and> (0::nat) < length [\<lparr>tc_title = ''Buy milk'', tc_dueDate = None\<rparr>]
   \<and> evt_id (newEvents_of undated_result
         (string_of_nat (env_now (example_env (answers undated_result))))
         (shouldCreateEntry undated_result (collectMedia [example_message])) ! 0)
       \<notin> evt_id ` set (getCalendarEvents empty_storage)
   \<and> task_dueDate (newTasks_of (example_env (answers undated_result)) undated_result
         (string_of_nat (env_now (example_env (answers undated_result))))
         (shouldCreateEntry undated_result (collectMedia [example_message])) ! 0)
       = Some ''2024-03-25T12:00:02.000Z''
   \<and> tx_date (newTxs_of (example_env (answers undated_result)) undated_result
         (string_of_nat (env_now (example_env (answers undated_result))))
         (shouldCreateEntry undated_result (collectMedia [example_message])) ! 0)
       = ''2024-03-25T12:00:02.000Z''
   \<and> evt_startTime (newEvents_of undated_result
         (string_of_nat (env_now (example_env (answers undated_result))))
         (shouldCreateEntry undated_result (collectMedia [example_message])) ! 0)
       = None
   \<and> newEvents_of undated_result
         (string_of_nat (env_now (example_env (answers undated_result))))
         (shouldCreateEntry undated_result (collectMedia [example_message])) ! 0
       \<in> set (getCalendarEvents (persist_pass (example_env (answers undated_result))
                                   undated_result [example_message] empty_storage))"
proof -
  let ?env = "example_env (answers undated_result)"
  have u: "g_tasks undated_result = Some [\<lparr>tc_title = ''Buy milk'', tc_dueDate = None\<rparr>]"
    "g_transactions undated_result
       = Some [\<lparr>xc_description = ''Lunch'', xc_amount = 50, xc_type = expense,
                xc_category = None, xc_date = None\<rparr>]"
    "g_calendarEvents undated_result
       = Some [\<lparr>ec_title = ''Dentist'', ec_startTime = None, ec_endTime = None,
                ec_description = None\<rparr>]"
    by (simp_all add: undated_result_def empty_object_def)
  have now: "env_isoNow ?env = ''2024-03-25T12:00:02.000Z''"
    by (simp add: example_env_def)
  have f: "evt_id (newEvents_of undated_result (string_of_nat (env_now ?env))
         (shouldCreateEntry undated_result (collectMedia [example_message])) ! 0)
       \<notin> evt_id ` set (getCalendarEvents empty_storage)"
    by (simp add: getters empty_storage_def)
  note t = candidates_defaulted_not_dropped[where env = ?env and g = undated_result
      and newInput = "[example_message]" and s = empty_storage]
  from t[THEN conjunct1, rule_format, OF u(1)]
  have a: "task_dueDate (newTasks_of ?env undated_result (string_of_nat (env_now ?env))
         (shouldCreateEntry undated_result (collectMedia [example_message])) ! 0)
       = Some ''2024-03-25T12:00:02.000Z''"
    by (simp add: now)
  from t[THEN conjunct2, THEN conjunct1, rule_format, OF u(2)]
  have b: "tx_date (newTxs_of ?env undated_result (string_of_nat (env_now ?env))
         (shouldCreateEntry undated_result (collectMedia [example_message])) ! 0)
       = ''2024-03-25T12:00:02.000Z''"
    by (simp add: now)
  from t[THEN conjunct2, THEN conjunct2, rule_format, OF u(3)] f
  have c: "evt_startTime (newEvents_of undated_result (string_of_nat (env_now ?env))
         (shouldCreateEntry undated_result (collectMedia [example_message])) ! 0) = None"
    and d: "newEvents_of undated_result (string_of_nat (env_now ?env))
         (shouldCreateEntry undated_result (collectMedia [example_message])) ! 0
       \<in> set (getCalendarEvents (persist_pass ?env undated_result [example_message]
                                   empty_storage))"
    by simp_all
  from u f a b c d show ?thesis by simp
qed

text \<open>
  C7 as stated fails: a pass whose extraction result holds a transaction without a date
  and an event without a start time stores both, the transaction dated with the current
  time and the event still without a start time.
\<close>

theorem undated_candidates_counterexample:
  "getTransactions (persist_pass (example_env (answers undated_result)) undated_result
       [example_message] empty_storage)
     = [\<lparr>tx_id = ''1711368002000-tx-0'', tx_amount = 50, tx_type = expense, tx_category = None,
         tx_description = ''Lunch'', tx_date = ''2024-03-25T12:00:02.000Z'',
         tx_linkedEntryId = None\<rparr>]
   \<and> getCalendarEvents (persist_pass (example_env (answers undated_result)) undated_result
       [example_message] empty_storage)
     = [\<lparr>evt_id = ''1711368002000-evt-0'', evt_title = ''Dentist'', evt_startTime = None,
         evt_endTime = None, evt_description = None, evt_linkedEntryId = None\<rparr>]"
  unfolding getTransactions_persist_pass getCalendarEvents_persist_pass
  by (simp add: undated_result_def example_message_def collectMedia_def empty_storage_def getters
      shouldCreateEntry_def newEvents_of_def newTxs_of_def candidates_def link_of_def
      or_else_def example_env_def empty_object_def string_of_nat.simps digit_char_def)
subsection \<open>Links to an entry that is not created\<close>

text \<open>
  C3 at a failing input. The unprocessed message is a text file sent without typed
  text, and the model answers with \<open>hasContent\<close> true, one task and no content. The
  pass stores the task with \<open>linkedEntryId\<close> set to the batch id, and stores no
  entry: the link points to an entry that does not exist.
\<close>

theorem link_without_entry:
  "getTasks (store (handleAutoSync (example_env (answers task_only_result)) attachment_only_state))
     = [\<lparr>task_id = ''1711368002000-task-0'', task_title = ''Buy milk'', task_completed = False,
         task_dueDate = Some ''2024-03-25T12:00:02.000Z'',
         task_linkedEntryId = Some ''1711368002000''\<rparr>]
   \<and> getEntries (store (handleAutoSync (example_env (answers task_only_result))
         attachment_only_state)) = []"
proof -
  have g: "generateEntryFromChat (example_env (answers task_only_result)) newMessages
             contextMessages = Inr (JObject task_only_result)" for newMessages contextMessages
    by (rule generateEntryFromChat_answers)
  have s: "store (handleAutoSync (example_env (answers task_only_result)) attachment_only_state)
      = persist_pass (example_env (answers task_only_result)) task_only_result [file_message]
          empty_storage"
    by (simp add: handleAutoSync_def handleAutoSync_try_def Let_def g attachment_only_state_def
        newInput_slice_def)
  have e: "newEntry_of (example_env (answers task_only_result)) task_only_result [file_message]
      = None"
    by (simp add: newEntry_of_def Let_def file_message_facts shouldCreateEntry_def
        finalContent_of_def is_blank_def or_else_def task_only_result_def empty_object_def)
  show ?thesis
    unfolding s getTasks_persist_pass getEntries_persist_pass e
    by (simp add: file_message_facts shouldCreateEntry_def task_only_result_def
        empty_object_def newTasks_of_def candidates_def link_of_def or_else_def example_env_def
        saveTasks_step_def empty_storage_def getters string_of_nat.simps digit_char_def)
qed

section \<open>Recurring events in the calendar widget\<close>

lemma getDate_Some: "getDate tz (Some t) = Some (DateFromTime (LocalTime tz t))"
  by (simp add: getDate_def)

lemma getMonth_Some: "getMonth tz (Some t) = Some (MonthFromTime (LocalTime tz t))"
  by (simp add: getMonth_def)

lemma plus_opt_Some: "plus_opt (Some x) k = Some (x + k)"
  by (simp add: plus_opt_def)

text \<open>Rewrite rules that compute the date functions on numerals.\<close>

lemmas date_evaluation = new_Date_def date_only_def digit_value_def days_in_month_def
  TimeClip_def MakeDate_def MakeDay_def[unfolded Let_def] days_from_civil_def[unfolded Let_def]
  civil_from_days_def[unfolded Let_def] msPerDay_def
  Day_def TimeWithinDay_def YearFromTime_def MonthFromTime_def DateFromTime_def
  LocalTime_def UTC_def getDate_Some getMonth_Some setDate_def[unfolded Let_def]
  setMonth_def[unfolded Let_def] plus_opt_Some currentInstanceDate_def[unfolded Let_def]

lemmas iso_evaluation = toISOString_def[unfolded Let_def] iso_year_def pad_left_def
  string_of_nat.simps digit_char_def numeral_2_eq_2

lemma weekly_base:
  "new_Date (w_parse weekly_env) (f_date weekly_form) = Some 1711324800000"
  by (simp add: weekly_form_def date_evaluation)

lemma weekly_instants:
  "currentInstanceDate central_european_2024 weekly (Some 1711324800000) 0 = Some 1711324800000"
  "currentInstanceDate central_european_2024 weekly (Some 1711324800000) (Suc 0) = Some 1711926000000"
  "currentInstanceDate central_european_2024 weekly (Some 1711324800000) 2 = Some 1712530800000"
  "currentInstanceDate central_european_2024 weekly (Some 1711324800000) 3 = Some 1713135600000"
  "currentInstanceDate central_european_2024 weekly (Some 1711324800000) 4 = Some 1713740400000"
  "currentInstanceDate central_european_2024 weekly (Some 1711324800000) 5 = Some 1714345200000"
  "currentInstanceDate central_european_2024 weekly (Some 1711324800000) 6 = Some 1714950000000"
  "currentInstanceDate central_european_2024 weekly (Some 1711324800000) 7 = Some 1715554800000"
  "currentInstanceDate central_european_2024 weekly (Some 1711324800000) 8 = Some 1716159600000"
  "currentInstanceDate central_european_2024 weekly (Some 1711324800000) 9 = Some 1716764400000"
  "currentInstanceDate central_european_2024 weekly (Some 1711324800000) 10 = Some 1717369200000"
  "currentInstanceDate central_european_2024 weekly (Some 1711324800000) 11 = Some 1717974000000"
  by (simp_all add: central_european_2024_def date_evaluation)

lemma weekly_iso:
  "toISOString (Some 1711324800000) = Inr ''2024-03-25T00:00:00.000Z''"
  "toISOString (Some 1711926000000) = Inr ''2024-03-31T23:00:00.000Z''"
  "toISOString (Some 1712530800000) = Inr ''2024-04-07T23:00:00.000Z''"
  "toISOString (Some 1713135600000) = Inr ''2024-04-14T23:00:00.000Z''"
  "toISOString (Some 1713740400000) = Inr ''2024-04-21T23:00:00.000Z''"
  "toISOString (Some 1714345200000) = Inr ''2024-04-28T23:00:00.000Z''"
  "toISOString (Some 1714950000000) = Inr ''2024-05-05T23:00:00.000Z''"
  "toISOString (Some 1715554800000) = Inr ''2024-05-12T23:00:00.000Z''"
  "toISOString (Some 1716159600000) = Inr ''2024-05-19T23:00:00.000Z''"
  "toISOString (Some 1716764400000) = Inr ''2024-05-26T23:00:00.000Z''"
  "toISOString (Some 1717369200000) = Inr ''2024-06-02T23:00:00.000Z''"
  "toISOString (Some 1717974000000) = Inr ''2024-06-09T23:00:00.000Z''"
  by (simp_all add: iso_evaluation date_evaluation)

lemma upt_12: "[0 ..< 12] = [0, 1, 2, 3, 4, 5, 6, 7, 8, 9, 10, 11 :: nat]"
  by code_simp

lemma weekly_eventsToCreate:
  "eventsToCreate weekly_env weekly_form =
     Inr [weekly_instance 0 ''2024-03-25'', weekly_instance 1 ''2024-03-31'',
          weekly_instance 2 ''2024-04-07'', weekly_instance 3 ''2024-04-14'',
          weekly_instance 4 ''2024-04-21'', weekly_instance 5 ''2024-04-28'',
          weekly_instance 6 ''2024-05-05'', weekly_instance 7 ''2024-05-12'',
          weekly_instance 8 ''2024-05-19'', weekly_instance 9 ''2024-05-26'',
          weekly_instance 10 ''2024-06-02'', weekly_instance 11 ''2024-06-09'']"
proof -
  have f: "f_repeat weekly_form = weekly" "f_title weekly_form = ''Gym''"
    "f_description weekly_form = ''Leg day''" "f_startTime weekly_form = ''09:00''"
    "f_endTime weekly_form = ''10:00''"
    by (simp_all add: weekly_form_def)
  have e: "w_tz weekly_env = central_european_2024" "w_idNow weekly_env i = 1710930000000"
    "w_idRandom weekly_env i = ''x7f2q9k'' @ string_of_nat i" for i
    by (simp_all add: weekly_env_def)
  have n: "string_of_nat 1710930000000 = ''1710930000000''"
    by (simp add: string_of_nat.simps digit_char_def)
  show ?thesis
    by (simp add: eventsToCreate_def weekly_base repeat_count_def f e n upt_12 instance_event_def
        weekly_instants weekly_iso before_T_def weekly_instance_def)
qed

lemma collect_length: "collect rs = Inr xs \<Longrightarrow> length xs = length rs"
proof (induction rs arbitrary: xs)
  case Nil
  then show ?case by simp
next
  case (Cons r rs)
  then show ?case by (cases r) (auto split: sum.splits)
qed

lemma collect_members:
  "collect rs = Inr xs \<Longrightarrow> x \<in> set xs \<Longrightarrow> Inr x \<in> set rs"
proof (induction rs arbitrary: xs)
  case Nil
  then show ?case by simp
next
  case (Cons r rs)
  then show ?case by (cases r) (auto split: sum.splits)
qed

text \<open>
  What holds of the created events in every time zone: their number is fixed by the
  repeat mode, and each carries the title and the description of the form.
\<close>

lemma eventsToCreate_count_and_text:
  assumes "eventsToCreate env form = Inr evs"
  shows "length evs = (case f_repeat form of
                          daily \<Rightarrow> 30 | weekly \<Rightarrow> 12 | monthly \<Rightarrow> 6 | repeat_none \<Rightarrow> 1)"
    and "\<forall>ev \<in> set evs. evt_title ev = f_title form
           \<and> evt_description ev = Some (f_description form)"
proof -
  from collect_length[OF assms[unfolded eventsToCreate_def]]
  show "length evs = (case f_repeat form of
                          daily \<Rightarrow> 30 | weekly \<Rightarrow> 12 | monthly \<Rightarrow> 6 | repeat_none \<Rightarrow> 1)"
    by (simp add: repeat_count_def split: RepeatMode.splits)
  show "\<forall>ev \<in> set evs. evt_title ev = f_title form
           \<and> evt_description ev = Some (f_description form)"
  proof
    fix ev assume "ev \<in> set evs"
    from collect_members[OF assms[unfolded eventsToCreate_def] this]
    obtain i where "instance_event env form (new_Date (w_parse env) (f_date form)) i = Inr ev"
      by auto
    then show "evt_title ev = f_title form \<and> evt_description ev = Some (f_description form)"
      by (auto simp: instance_event_def split: sum.splits)
  qed
qed

lemma saveTasks_step_fresh:
  "task_id t \<notin> task_id ` set xs \<Longrightarrow> saveTasks_step xs t = xs @ [t]"
proof -
  assume "task_id t \<notin> task_id ` set xs"
  then have "findIndex (\<lambda>existing. task_id existing = task_id t) xs = None"
    by (auto simp: findIndex_None_iff) (metis imageI)
  then show ?thesis by (simp add: saveTasks_step_def)
qed

lemma foldl_saveTasks_fresh:
  "distinct (map task_id (xs @ ts)) \<Longrightarrow> foldl saveTasks_step xs ts = xs @ ts"
proof (induction ts arbitrary: xs)
  case Nil
  show ?case by simp
next
  case (Cons t ts)
  from Cons.prems have "task_id t \<notin> task_id ` set xs" by auto
  then have s: "saveTasks_step xs t = xs @ [t]" by (rule saveTasks_step_fresh)
  from Cons.prems have "distinct (map task_id ((xs @ [t]) @ ts))" by simp
  from Cons.IH[OF this] s show ?case by simp
qed

text \<open>
  When the ids drawn for the instances are distinct and new to the storage, every
  created event is stored and each has one mirrored task: the task's id is
  \<open>task-mirror-\<close> followed by the event's id and its due date is the event's start.
\<close>

lemma handleSaveEvent_stores:
  assumes form: "f_title (newEvent w) \<noteq> []" "f_date (newEvent w) \<noteq> []"
      "f_startTime (newEvent w) \<noteq> []" "f_endTime (newEvent w) \<noteq> []"
    and evs: "eventsToCreate env (newEvent w) = Inr evs"
    and fresh_events: "distinct (map evt_id evs)"
      "evt_id ` set evs \<inter> evt_id ` set (getCalendarEvents s) = {}"
    and fresh_tasks: "distinct (map task_id (getTasks s @ map mirror_task evs))"
  shows "\<exists>w' s'. handleSaveEvent env (w, s) = Inr (w', s')
           \<and> getCalendarEvents s' = getCalendarEvents s @ evs
           \<and> getTasks s' = getTasks s @ map mirror_task evs"
proof -
  let ?s' = "saveTasks (addCalendarEvents s evs) (map mirror_task evs)"
  have h: "handleSaveEvent env (w, s) = Inr (\<lparr>isModalOpen = False, newEvent = reset_form env\<rparr>, ?s')"
    using form evs by (simp add: handleSaveEvent_def Let_def)
  have "filter (\<lambda>ev. evt_id ev \<notin> evt_id ` set (getCalendarEvents s)) evs = evs"
    using fresh_events(2) by (auto simp: filter_id_conv)
  then have c: "getCalendarEvents ?s' = getCalendarEvents s @ evs"
    by (simp add: frames getCalendarEvents_addCalendarEvents)
  have t: "getTasks ?s' = getTasks s @ map mirror_task evs"
    using foldl_saveTasks_fresh[OF fresh_tasks] by (simp add: getTasks_saveTasks frames)
  from h c t show ?thesis by blast
qed

text \<open>
  C8 at a failing input. In a browser on Central European Time a weekly event is
  created from 25 March 2024, 09:00 to 10:00. Twelve events and twelve mirrored tasks
  are stored, each task due at its event's start, but the second event starts on 31
  March, six days after the first and not seven: the clocks change on 31 March, the
  date is advanced in local time from a base parsed as midnight UTC and is read back
  in UTC.
\<close>

theorem weekly_recurrence_across_clock_change:
  "(case handleSaveEvent weekly_env (\<lparr>isModalOpen = True, newEvent = weekly_form\<rparr>, empty_storage) of
      Inl e \<Rightarrow> None
    | Inr ws \<Rightarrow> Some (map evt_startTime (getCalendarEvents (snd ws)),
                      map task_dueDate (getTasks (snd ws))))
   = Some ([Some ''2024-03-25T09:00:00'', Some ''2024-03-31T09:00:00'',
            Some ''2024-04-07T09:00:00'', Some ''2024-04-14T09:00:00'',
            Some ''2024-04-21T09:00:00'', Some ''2024-04-28T09:00:00'',
            Some ''2024-05-05T09:00:00'', Some ''2024-05-12T09:00:00'',
            Some ''2024-05-19T09:00:00'', Some ''2024-05-26T09:00:00'',
            Some ''2024-06-02T09:00:00'', Some ''2024-06-09T09:00:00''],
           [Some ''2024-03-25T09:00:00'', Some ''2024-03-31T09:00:00'',
            Some ''2024-04-07T09:00:00'', Some ''2024-04-14T09:00:00'',
            Some ''2024-04-21T09:00:00'', Some ''2024-04-28T09:00:00'',
            Some ''2024-05-05T09:00:00'', Some ''2024-05-12T09:00:00'',
            Some ''2024-05-19T09:00:00'', Some ''2024-05-26T09:00:00'',
            Some ''2024-06-02T09:00:00'', Some ''2024-06-09T09:00:00''])"
proof -
  let ?w = "\<lparr>isModalOpen = True, newEvent = weekly_form\<rparr>"
  let ?evs = "[weekly_instance 0 ''2024-03-25'', weekly_instance 1 ''2024-03-31'',
          weekly_instance 2 ''2024-04-07'', weekly_instance 3 ''2024-04-14'',
          weekly_instance 4 ''2024-04-21'', weekly_instance 5 ''2024-04-28'',
          weekly_instance 6 ''2024-05-05'', weekly_instance 7 ''2024-05-12'',
          weekly_instance 8 ''2024-05-19'', weekly_instance 9 ''2024-05-26'',
          weekly_instance 10 ''2024-06-02'', weekly_instance 11 ''2024-06-09'']"
  have ids: "map evt_id ?evs = map (\<lambda>i. ''1710930000000x7f2q9k'' @ string_of_nat i)
      [0, 1, 2, 3, 4, 5, 6, 7, 8, 9, 10, 11]"
    by (simp add: weekly_instance_def)
  have d: "distinct (map evt_id ?evs)"
    unfolding ids by (simp add: string_of_nat_eq_iff)
  have d': "distinct (map task_id (getTasks empty_storage @ map mirror_task ?evs))"
  proof -
    have "map task_id (map mirror_task ?evs) = map (\<lambda>i. ''task-mirror-'' @ i) (map evt_id ?evs)"
      by (simp add: mirror_task_def)
    moreover have "distinct (map (\<lambda>i. ''task-mirror-'' @ i) (map evt_id ?evs))"
      using d by (simp only: distinct_map) (simp add: inj_on_def)
    ultimately show ?thesis
      by (simp only: getters empty_storage_def) simp
  qed
  have "\<exists>w' s'. handleSaveEvent weekly_env (?w, empty_storage) = Inr (w', s')
      \<and> getCalendarEvents s' = getCalendarEvents empty_storage @ ?evs
      \<and> getTasks s' = getTasks empty_storage @ map mirror_task ?evs"
  proof (rule handleSaveEvent_stores)
    show "eventsToCreate weekly_env (newEvent ?w) = Inr ?evs"
      using weekly_eventsToCreate by simp
    show "distinct (map evt_id ?evs)" by (rule d)
    show "distinct (map task_id (getTasks empty_storage @ map mirror_task ?evs))" by (rule d')
  qed (simp_all add: weekly_form_def getters empty_storage_def)
  then obtain w' s' where r: "handleSaveEvent weekly_env (?w, empty_storage) = Inr (w', s')"
    "getCalendarEvents s' = ?evs" "getTasks s' = map mirror_task ?evs"
    by (auto simp: getters empty_storage_def)
  show ?thesis
    unfolding r by (simp add: r weekly_instance_def mirror_task_def)
qed

end
